theory Spec2Isabelle
  imports Main "HOL-Library.Word"
begin

unbundle bit_operations_syntax

section \<open>The libev adapter of nats.c\<close>

text \<open>
  The repository holds two versions of the adapter header \<^verbatim>\<open>libev.h\<close>
  (both in \<^verbatim>\<open>src/unnamed/part_000\<close>):
  \<^item> lines 1-207, called the \<^emph>\<open>idle\<close> variant here: the write watcher
    is an \<^verbatim>\<open>ev_idle\<close>, and \<^verbatim>\<open>natsLibev_Read\<close> and
    \<^verbatim>\<open>natsLibev_Write\<close> call \<^verbatim>\<open>ev_async_send\<close>;
  \<^item> lines 208-396, called the \<^emph>\<open>io\<close> variant: both watchers are
    \<^verbatim>\<open>ev_io\<close> and one callback dispatches on the event mask.

  Pointers are addresses, \<^verbatim>\<open>NULL\<close> is \<open>None\<close>. Dereferencing a
  pointer that is \<^verbatim>\<open>NULL\<close> or not allocated is undefined behaviour in C; every
  function of the model returns \<open>None\<close> there.
\<close>

subsection \<open>Data\<close>

type_synonym addr = nat
type_synonym loop_ref = nat
type_synonym conn_ref = nat
type_synonym natsSock = int

text \<open>The two values of \<^verbatim>\<open>natsStatus\<close> that the adapter returns.\<close>

datatype natsStatus = NATS_OK | NATS_NO_MEMORY

text \<open>
  A watcher lives inside the adapter's struct; its address is the address of the struct
  together with the member.
\<close>

datatype member = F_read | F_write | F_keepActive

type_synonym watcher_ref = "addr \<times> member"

text \<open>The callbacks the adapter installs, by watcher type.\<close>

datatype io_callback = CB_natsLibev_ProcessReadEvent | CB_natsLibev_ProcessEvent
datatype idle_callback = CB_natsLibev_ProcessWriteEvent
datatype async_callback = CB_keepAliveCb

text \<open>
  The event bits of libev's \<^verbatim>\<open>ev.h\<close> that the adapter names or receives:
  \<^verbatim>\<open>EV_READ = 0x01\<close>, \<^verbatim>\<open>EV_WRITE = 0x02\<close>, and
  \<^verbatim>\<open>EV_IDLE = 0x2000\<close> and \<^verbatim>\<open>EV_ASYNC = 0x80000\<close>, which are what
  the callback of an idle watcher and of an async watcher is called with.
\<close>

definition EV_READ :: "32 word" where "EV_READ = 0x01"
definition EV_WRITE :: "32 word" where "EV_WRITE = 0x02"
definition EV_IDLE :: "32 word" where "EV_IDLE = 0x2000"
definition EV_ASYNC :: "32 word" where "EV_ASYNC = 0x80000"

text \<open>
  The members of libev's watcher structs that the adapter or the libev calls it makes
  read or write. An \<^verbatim>\<open>ev_idle\<close> has no \<^verbatim>\<open>fd\<close> and no
  \<^verbatim>\<open>events\<close> member.
\<close>

record ev_io =
  io_active :: bool
  io_data :: "addr option"
  io_cb :: io_callback
  io_fd :: natsSock
  io_events :: "32 word"

record ev_idle =
  idle_active :: bool
  idle_data :: "addr option"
  idle_cb :: idle_callback

record ev_async =
  async_active :: bool
  async_cb :: async_callback
  async_sent :: bool

text \<open>
  \<^verbatim>\<open>natsLibevEvents\<close>. The two variants differ in the type of
  \<^verbatim>\<open>write\<close> only: \<open>ev_idle\<close> (lines 27-35) or \<open>ev_io\<close>
  (lines 234-242). The member is \<open>write_w\<close> here, \<open>write\<close> being a keyword
  of Isabelle.
\<close>

record 'w natsLibevEvents =
  nc :: conn_ref
  loop :: loop_ref
  read :: ev_io
  write_w :: 'w
  keepActive :: ev_async

text \<open>
  What the program does to the outside, in program order: the libev calls that reach
  the event loop, and the calls of the client library's two hooks.
\<close>

datatype event =
    Ev_async_start loop_ref watcher_ref
  | Ev_async_send loop_ref watcher_ref
  | Ev_async_stop loop_ref watcher_ref
  | Ev_io_set watcher_ref natsSock "32 word"
  | Ev_io_start loop_ref watcher_ref
  | Ev_io_stop loop_ref watcher_ref
  | Ev_idle_start loop_ref watcher_ref
  | Ev_idle_stop loop_ref watcher_ref
  | Hook_ProcessReadEvent conn_ref
  | Hook_ProcessWriteEvent conn_ref

text \<open>
  The event loops: the active registrations (\<open>(l, r)\<close> when the watcher at
  \<open>r\<close> is started on the loop \<open>l\<close>), and the log of events.
\<close>

record reactor =
  watchers :: "(loop_ref \<times> watcher_ref) set"
  trace :: "event list"

text \<open>
  The program state: the memory that holds adapter structs (every address holds some
  bytes; \<open>allocated\<close> are the addresses \<^verbatim>\<open>malloc\<close> gave out and
  \<^verbatim>\<open>free\<close> has not taken back), and the event loops.
\<close>

record 'w world =
  mem :: "addr \<Rightarrow> 'w natsLibevEvents"
  allocated :: "addr set"
  reactor :: reactor

type_synonym idle_world = "ev_idle world"
type_synonym io_world = "ev_io world"

subsection \<open>The libev calls the adapter makes\<close>

text \<open>
  libev is a library outside the repository; each call is modelled by its documented
  contract. A call takes the watcher by pointer and the loop; the model takes the
  watcher's address and value and the loops, and returns the new value and loops.
  Starting an active watcher and stopping an inactive one do nothing.
\<close>

definition emit :: "event \<Rightarrow> reactor \<Rightarrow> reactor" where
  "emit e rs = rs\<lparr>trace := trace rs @ [e]\<rparr>"

definition register :: "loop_ref \<Rightarrow> watcher_ref \<Rightarrow> reactor \<Rightarrow> reactor" where
  "register l r rs = rs\<lparr>watchers := insert (l, r) (watchers rs)\<rparr>"

definition unregister :: "loop_ref \<Rightarrow> watcher_ref \<Rightarrow> reactor \<Rightarrow> reactor" where
  "unregister l r rs = rs\<lparr>watchers := watchers rs - {(l, r)}\<rparr>"

text \<open>
  What a start (\<open>on\<close>) or a stop does to a set of registrations, for a watcher
  whose active flag is \<open>was\<close>.
\<close>

definition toggled :: "bool \<Rightarrow> bool \<Rightarrow> 'a \<Rightarrow> 'a set \<Rightarrow> 'a set" where
  "toggled was on x W = (if was = on then W else if on then insert x W else W - {x})"

text \<open>\<^verbatim>\<open>ev_init\<close>: the watcher is inactive and has the callback.\<close>

definition ev_init_io :: "ev_io \<Rightarrow> io_callback \<Rightarrow> ev_io" where
  "ev_init_io w cb = w\<lparr>io_active := False, io_cb := cb\<rparr>"

definition ev_init_idle :: "ev_idle \<Rightarrow> idle_callback \<Rightarrow> ev_idle" where
  "ev_init_idle w cb = w\<lparr>idle_active := False, idle_cb := cb\<rparr>"

text \<open>\<^verbatim>\<open>ev_async_init\<close>: \<^verbatim>\<open>ev_init\<close>, and nothing is sent.\<close>

definition ev_async_init :: "ev_async \<Rightarrow> async_callback \<Rightarrow> ev_async" where
  "ev_async_init w cb = w\<lparr>async_active := False, async_cb := cb, async_sent := False\<rparr>"

definition ev_async_start ::
  "loop_ref \<Rightarrow> watcher_ref \<Rightarrow> ev_async \<Rightarrow> reactor \<Rightarrow> ev_async \<times> reactor" where
  "ev_async_start l r w rs =
     (let rs1 = emit (Ev_async_start l r) rs in
      if async_active w then (w, rs1)
      else (w\<lparr>async_sent := False, async_active := True\<rparr>, register l r rs1))"

text \<open>
  \<^verbatim>\<open>ev_async_send\<close> marks the watcher as sent and wakes the loop up; it
  may be called from any thread, and on a watcher in any state.
\<close>

definition ev_async_send ::
  "loop_ref \<Rightarrow> watcher_ref \<Rightarrow> ev_async \<Rightarrow> reactor \<Rightarrow> ev_async \<times> reactor" where
  "ev_async_send l r w rs = (w\<lparr>async_sent := True\<rparr>, emit (Ev_async_send l r) rs)"

definition ev_async_stop ::
  "loop_ref \<Rightarrow> watcher_ref \<Rightarrow> ev_async \<Rightarrow> reactor \<Rightarrow> ev_async \<times> reactor" where
  "ev_async_stop l r w rs =
     (let rs1 = emit (Ev_async_stop l r) rs in
      if \<not> async_active w then (w, rs1)
      else (w\<lparr>async_active := False\<rparr>, unregister l r rs1))"

text \<open>
  \<^verbatim>\<open>ev_io_set\<close> stores the descriptor and the events. libev forbids it on
  an active watcher (the loop would keep the watcher under its old descriptor): that
  is \<open>None\<close>.
\<close>

definition ev_io_set ::
  "watcher_ref \<Rightarrow> ev_io \<Rightarrow> natsSock \<Rightarrow> 32 word \<Rightarrow> reactor \<Rightarrow> (ev_io \<times> reactor) option" where
  "ev_io_set r w fd events rs =
     (if io_active w then None
      else Some (w\<lparr>io_fd := fd, io_events := events\<rparr>, emit (Ev_io_set r fd events) rs))"

text \<open>\<^verbatim>\<open>ev_idle_set\<close> is an empty macro.\<close>

definition ev_idle_set :: "ev_idle \<Rightarrow> ev_idle" where
  "ev_idle_set w = w"

definition ev_io_start ::
  "loop_ref \<Rightarrow> watcher_ref \<Rightarrow> ev_io \<Rightarrow> reactor \<Rightarrow> ev_io \<times> reactor" where
  "ev_io_start l r w rs =
     (let rs1 = emit (Ev_io_start l r) rs in
      if io_active w then (w, rs1)
      else (w\<lparr>io_active := True\<rparr>, register l r rs1))"

definition ev_io_stop ::
  "loop_ref \<Rightarrow> watcher_ref \<Rightarrow> ev_io \<Rightarrow> reactor \<Rightarrow> ev_io \<times> reactor" where
  "ev_io_stop l r w rs =
     (let rs1 = emit (Ev_io_stop l r) rs in
      if \<not> io_active w then (w, rs1)
      else (w\<lparr>io_active := False\<rparr>, unregister l r rs1))"

definition ev_idle_start ::
  "loop_ref \<Rightarrow> watcher_ref \<Rightarrow> ev_idle \<Rightarrow> reactor \<Rightarrow> ev_idle \<times> reactor" where
  "ev_idle_start l r w rs =
     (let rs1 = emit (Ev_idle_start l r) rs in
      if idle_active w then (w, rs1)
      else (w\<lparr>idle_active := True\<rparr>, register l r rs1))"

definition ev_idle_stop ::
  "loop_ref \<Rightarrow> watcher_ref \<Rightarrow> ev_idle \<Rightarrow> reactor \<Rightarrow> ev_idle \<times> reactor" where
  "ev_idle_stop l r w rs =
     (let rs1 = emit (Ev_idle_stop l r) rs in
      if \<not> idle_active w then (w, rs1)
      else (w\<lparr>idle_active := False\<rparr>, unregister l r rs1))"

subsection \<open>The client library's hooks\<close>

text \<open>
  Modelled from the spec: \<^verbatim>\<open>natsConnection_ProcessReadEvent\<close> and
  \<^verbatim>\<open>natsConnection_ProcessWriteEvent\<close> are functions of the client library
  that are not among the source files. The spec calls them the client's
  process-read-ready and process-write-ready hooks on a connection; the model records
  that the hook was called, and on which connection.
\<close>

definition natsConnection_ProcessReadEvent :: "conn_ref \<Rightarrow> 'w world \<Rightarrow> 'w world" where
  "natsConnection_ProcessReadEvent c s = s\<lparr>reactor := emit (Hook_ProcessReadEvent c) (reactor s)\<rparr>"

definition natsConnection_ProcessWriteEvent :: "conn_ref \<Rightarrow> 'w world \<Rightarrow> 'w world" where
  "natsConnection_ProcessWriteEvent c s = s\<lparr>reactor := emit (Hook_ProcessWriteEvent c) (reactor s)\<rparr>"

subsection \<open>What both variants share\<close>

text \<open>
  \<open>deref s userData\<close> is \<^verbatim>\<open>(natsLibevEvents*) userData\<close> followed by a
  member access: the address and the struct, when the pointer is valid.
\<close>

definition deref :: "'w world \<Rightarrow> addr option \<Rightarrow> (addr \<times> 'w natsLibevEvents) option" where
  "deref s userData =
     (case userData of
        None \<Rightarrow> None
      | Some p \<Rightarrow> if p \<in> allocated s then Some (p, mem s p) else None)"

text \<open>\<^verbatim>\<open>ev_io_toggle\<close> (lines 127-134 and 326-333).\<close>

definition ev_io_toggle ::
  "loop_ref \<Rightarrow> watcher_ref \<Rightarrow> ev_io \<Rightarrow> bool \<Rightarrow> reactor \<Rightarrow> ev_io \<times> reactor" where
  "ev_io_toggle l r w on rs = (if on then ev_io_start l r w rs else ev_io_stop l r w rs)"

text \<open>\<^verbatim>\<open>keepAliveCb\<close> (lines 68-72 and 267-271) does nothing.\<close>

definition keepAliveCb :: "loop_ref \<Rightarrow> ev_async \<Rightarrow> 32 word \<Rightarrow> 'w world \<Rightarrow> 'w world option" where
  "keepAliveCb l w revents s = Some s"

subsection \<open>The idle variant (lines 1-207)\<close>

text \<open>\<^verbatim>\<open>natsLibev_ProcessReadEvent\<close> (lines 52-58).\<close>

definition natsLibev_ProcessReadEvent ::
  "loop_ref \<Rightarrow> ev_io \<Rightarrow> 32 word \<Rightarrow> 'w world \<Rightarrow> 'w world option" where
  "natsLibev_ProcessReadEvent l w revents s =
     (case deref s (io_data w) of
        None \<Rightarrow> None
      | Some (p, nle) \<Rightarrow> Some (natsConnection_ProcessReadEvent (nc nle) s))"

text \<open>\<^verbatim>\<open>natsLibev_ProcessWriteEvent\<close> (lines 60-66).\<close>

definition natsLibev_ProcessWriteEvent ::
  "loop_ref \<Rightarrow> ev_idle \<Rightarrow> 32 word \<Rightarrow> 'w world \<Rightarrow> 'w world option" where
  "natsLibev_ProcessWriteEvent l w revents s =
     (case deref s (idle_data w) of
        None \<Rightarrow> None
      | Some (p, nle) \<Rightarrow> Some (natsConnection_ProcessWriteEvent (nc nle) s))"

text \<open>\<^verbatim>\<open>ev_idle_toggle\<close> (lines 136-143).\<close>

definition ev_idle_toggle ::
  "loop_ref \<Rightarrow> watcher_ref \<Rightarrow> ev_idle \<Rightarrow> bool \<Rightarrow> reactor \<Rightarrow> ev_idle \<times> reactor" where
  "ev_idle_toggle l r w on rs = (if on then ev_idle_start l r w rs else ev_idle_stop l r w rs)"

text \<open>\<^verbatim>\<open>natsLibev_Read\<close> (lines 153-160).\<close>

definition natsLibev_Read_idle ::
  "addr option \<Rightarrow> bool \<Rightarrow> idle_world \<Rightarrow> (natsStatus \<times> idle_world) option" where
  "natsLibev_Read_idle userData add s =
     (case deref s userData of
        None \<Rightarrow> None
      | Some (p, nle) \<Rightarrow>
          let (r, rs1) = ev_io_toggle (loop nle) (p, F_read) (read nle) add (reactor s);
              (k, rs2) = ev_async_send (loop nle) (p, F_keepActive) (keepActive nle) rs1
          in Some (NATS_OK,
                   s\<lparr>mem := (mem s)(p := nle\<lparr>read := r, keepActive := k\<rparr>), reactor := rs2\<rparr>))"

text \<open>\<^verbatim>\<open>natsLibev_Write\<close> (lines 170-177).\<close>

definition natsLibev_Write_idle ::
  "addr option \<Rightarrow> bool \<Rightarrow> idle_world \<Rightarrow> (natsStatus \<times> idle_world) option" where
  "natsLibev_Write_idle userData add s =
     (case deref s userData of
        None \<Rightarrow> None
      | Some (p, nle) \<Rightarrow>
          let (i, rs1) = ev_idle_toggle (loop nle) (p, F_write) (write_w nle) add (reactor s);
              (k, rs2) = ev_async_send (loop nle) (p, F_keepActive) (keepActive nle) rs1
          in Some (NATS_OK,
                   s\<lparr>mem := (mem s)(p := nle\<lparr>write_w := i, keepActive := k\<rparr>), reactor := rs2\<rparr>))"

text \<open>
  \<^verbatim>\<open>natsLibev_Attach\<close> (lines 86-125), in three parts. First the branch
  \<^verbatim>\<open>nle == NULL\<close> after a \<^verbatim>\<open>malloc\<close> that returned \<open>p\<close>
  (lines 99-109); the struct holds whatever the memory held until the members are
  assigned.
\<close>

definition attach_first_idle :: "loop_ref \<Rightarrow> conn_ref \<Rightarrow> addr \<Rightarrow> idle_world \<Rightarrow> idle_world" where
  "attach_first_idle libevLoop c p s =
     (let nle = (mem s p)\<lparr>nc := c, loop := libevLoop\<rparr>;
          (k, rs1) = ev_async_start (loop nle) (p, F_keepActive)
                       (ev_async_init (keepActive nle) CB_keepAliveCb) (reactor s);
          r = (ev_init_io (read nle) CB_natsLibev_ProcessReadEvent)\<lparr>io_data := Some p\<rparr>;
          i = (ev_init_idle (write_w nle) CB_natsLibev_ProcessWriteEvent)\<lparr>idle_data := Some p\<rparr>
      in s\<lparr>mem := (mem s)(p := nle\<lparr>read := r, write_w := i, keepActive := k\<rparr>),
           allocated := insert p (allocated s),
           reactor := rs1\<rparr>)"

text \<open>The \<^verbatim>\<open>else\<close> branch (lines 113-114): a reconnect.\<close>

definition attach_again_idle :: "addr \<Rightarrow> idle_world \<Rightarrow> idle_world option" where
  "attach_again_idle p s =
     (case natsLibev_Read_idle (Some p) False s of
        None \<Rightarrow> None
      | Some (_, s1) \<Rightarrow>
          (case natsLibev_Write_idle (Some p) False s1 of
             None \<Rightarrow> None
           | Some (_, s2) \<Rightarrow> Some s2))"

text \<open>Lines 117-120, which both branches reach.\<close>

definition attach_bind_idle :: "addr \<Rightarrow> natsSock \<Rightarrow> idle_world \<Rightarrow> idle_world option" where
  "attach_bind_idle p socket s =
     (case ev_io_set (p, F_read) (read (mem s p)) socket EV_READ (reactor s) of
        None \<Rightarrow> None
      | Some (r, rs1) \<Rightarrow>
          (case natsLibev_Read_idle (Some p) True
                  (s\<lparr>mem := (mem s)(p := (mem s p)\<lparr>read := r\<rparr>), reactor := rs1\<rparr>) of
             None \<Rightarrow> None
           | Some (_, s1) \<Rightarrow>
               Some (s1\<lparr>mem := (mem s1)(p := (mem s1 p)\<lparr>write_w := ev_idle_set (write_w (mem s1 p))\<rparr>)\<rparr>)))"

text \<open>
  The whole function. \<open>userData\<close> is the value of \<^verbatim>\<open>*userData\<close> at the
  call and the second component of the result is its value at the return;
  \<open>malloc\<close> is what \<^verbatim>\<open>malloc\<close> returns if it is called.
\<close>

definition natsLibev_Attach_idle ::
  "addr option \<Rightarrow> loop_ref \<Rightarrow> conn_ref \<Rightarrow> natsSock \<Rightarrow> addr option \<Rightarrow> idle_world
     \<Rightarrow> (natsStatus \<times> addr option \<times> idle_world) option" where
  "natsLibev_Attach_idle userData libevLoop c socket malloc s =
     (case userData of
        None \<Rightarrow>
          (case malloc of
             None \<Rightarrow> Some (NATS_NO_MEMORY, userData, s)
           | Some p \<Rightarrow>
               (case attach_bind_idle p socket (attach_first_idle libevLoop c p s) of
                  None \<Rightarrow> None
                | Some s' \<Rightarrow> Some (NATS_OK, Some p, s')))
      | Some p \<Rightarrow>
          (case attach_again_idle p s of
             None \<Rightarrow> None
           | Some s1 \<Rightarrow>
               (case attach_bind_idle p socket s1 of
                  None \<Rightarrow> None
                | Some s' \<Rightarrow> Some (NATS_OK, Some p, s'))))"

text \<open>\<^verbatim>\<open>natsLibev_Detach\<close> (lines 187-199).\<close>

definition natsLibev_Detach_idle :: "addr option \<Rightarrow> idle_world \<Rightarrow> (natsStatus \<times> idle_world) option" where
  "natsLibev_Detach_idle userData s =
     (case natsLibev_Read_idle userData False s of
        None \<Rightarrow> None
      | Some (_, s1) \<Rightarrow>
          (case natsLibev_Write_idle userData False s1 of
             None \<Rightarrow> None
           | Some (_, s2) \<Rightarrow>
               (case deref s2 userData of
                  None \<Rightarrow> None
                | Some (p, nle) \<Rightarrow>
                    let (k, rs1) = ev_async_stop (loop nle) (p, F_keepActive) (keepActive nle) (reactor s2)
                    in Some (NATS_OK,
                             s2\<lparr>mem := (mem s2)(p := nle\<lparr>keepActive := k\<rparr>),
                                allocated := allocated s2 - {p},
                                reactor := rs1\<rparr>))))"

subsection \<open>The io variant (lines 208-396)\<close>

text \<open>\<^verbatim>\<open>natsLibev_ProcessEvent\<close> (lines 255-265).\<close>

definition natsLibev_ProcessEvent ::
  "loop_ref \<Rightarrow> ev_io \<Rightarrow> 32 word \<Rightarrow> 'w world \<Rightarrow> 'w world option" where
  "natsLibev_ProcessEvent l w revents s =
     (case deref s (io_data w) of
        None \<Rightarrow> None
      | Some (p, nle) \<Rightarrow>
          let s1 = (if revents AND EV_READ \<noteq> 0 then natsConnection_ProcessReadEvent (nc nle) s else s);
              s2 = (if revents AND EV_WRITE \<noteq> 0 then natsConnection_ProcessWriteEvent (nc nle) s1 else s1)
          in Some s2)"

text \<open>\<^verbatim>\<open>natsLibev_Read\<close> (lines 343-349).\<close>

definition natsLibev_Read_io ::
  "addr option \<Rightarrow> bool \<Rightarrow> io_world \<Rightarrow> (natsStatus \<times> io_world) option" where
  "natsLibev_Read_io userData add s =
     (case deref s userData of
        None \<Rightarrow> None
      | Some (p, nle) \<Rightarrow>
          let (r, rs1) = ev_io_toggle (loop nle) (p, F_read) (read nle) add (reactor s)
          in Some (NATS_OK, s\<lparr>mem := (mem s)(p := nle\<lparr>read := r\<rparr>), reactor := rs1\<rparr>))"

text \<open>\<^verbatim>\<open>natsLibev_Write\<close> (lines 359-365).\<close>

definition natsLibev_Write_io ::
  "addr option \<Rightarrow> bool \<Rightarrow> io_world \<Rightarrow> (natsStatus \<times> io_world) option" where
  "natsLibev_Write_io userData add s =
     (case deref s userData of
        None \<Rightarrow> None
      | Some (p, nle) \<Rightarrow>
          let (r, rs1) = ev_io_toggle (loop nle) (p, F_write) (write_w nle) add (reactor s)
          in Some (NATS_OK, s\<lparr>mem := (mem s)(p := nle\<lparr>write_w := r\<rparr>), reactor := rs1\<rparr>))"

text \<open>
  \<^verbatim>\<open>natsLibev_Attach\<close> (lines 285-324), in the same three parts: the first
  attach after a successful \<^verbatim>\<open>malloc\<close> (lines 298-308), the reconnect
  (lines 312-313), and lines 316-319.
\<close>

definition attach_first_io :: "loop_ref \<Rightarrow> conn_ref \<Rightarrow> addr \<Rightarrow> io_world \<Rightarrow> io_world" where
  "attach_first_io libevLoop c p s =
     (let nle = (mem s p)\<lparr>nc := c, loop := libevLoop\<rparr>;
          (k, rs1) = ev_async_start (loop nle) (p, F_keepActive)
                       (ev_async_init (keepActive nle) CB_keepAliveCb) (reactor s);
          r = (ev_init_io (read nle) CB_natsLibev_ProcessEvent)\<lparr>io_data := Some p\<rparr>;
          i = (ev_init_io (write_w nle) CB_natsLibev_ProcessEvent)\<lparr>io_data := Some p\<rparr>
      in s\<lparr>mem := (mem s)(p := nle\<lparr>read := r, write_w := i, keepActive := k\<rparr>),
           allocated := insert p (allocated s),
           reactor := rs1\<rparr>)"

definition attach_again_io :: "addr \<Rightarrow> io_world \<Rightarrow> io_world option" where
  "attach_again_io p s =
     (case deref s (Some p) of
        None \<Rightarrow> None
      | Some (_, nle) \<Rightarrow>
          let (r, rs1) = ev_io_stop (loop nle) (p, F_read) (read nle) (reactor s);
              (i, rs2) = ev_io_stop (loop nle) (p, F_write) (write_w nle) rs1
          in Some (s\<lparr>mem := (mem s)(p := nle\<lparr>read := r, write_w := i\<rparr>), reactor := rs2\<rparr>))"

definition attach_bind_io :: "addr \<Rightarrow> natsSock \<Rightarrow> io_world \<Rightarrow> io_world option" where
  "attach_bind_io p socket s =
     (let nle = mem s p in
      case ev_io_set (p, F_read) (read nle) socket EV_READ (reactor s) of
        None \<Rightarrow> None
      | Some (r0, rs1) \<Rightarrow>
          let (r, rs2) = ev_io_start (loop nle) (p, F_read) r0 rs1 in
          (case ev_io_set (p, F_write) (write_w nle) socket EV_WRITE rs2 of
             None \<Rightarrow> None
           | Some (i, rs3) \<Rightarrow>
               Some (s\<lparr>mem := (mem s)(p := nle\<lparr>read := r, write_w := i\<rparr>), reactor := rs3\<rparr>)))"

definition natsLibev_Attach_io ::
  "addr option \<Rightarrow> loop_ref \<Rightarrow> conn_ref \<Rightarrow> natsSock \<Rightarrow> addr option \<Rightarrow> io_world
     \<Rightarrow> (natsStatus \<times> addr option \<times> io_world) option" where
  "natsLibev_Attach_io userData libevLoop c socket malloc s =
     (case userData of
        None \<Rightarrow>
          (case malloc of
             None \<Rightarrow> Some (NATS_NO_MEMORY, userData, s)
           | Some p \<Rightarrow>
               (case attach_bind_io p socket (attach_first_io libevLoop c p s) of
                  None \<Rightarrow> None
                | Some s' \<Rightarrow> Some (NATS_OK, Some p, s')))
      | Some p \<Rightarrow>
          (case attach_again_io p s of
             None \<Rightarrow> None
           | Some s1 \<Rightarrow>
               (case attach_bind_io p socket s1 of
                  None \<Rightarrow> None
                | Some s' \<Rightarrow> Some (NATS_OK, Some p, s'))))"

text \<open>\<^verbatim>\<open>natsLibev_Detach\<close> (lines 375-388).\<close>

definition natsLibev_Detach_io :: "addr option \<Rightarrow> io_world \<Rightarrow> (natsStatus \<times> io_world) option" where
  "natsLibev_Detach_io userData s =
     (case deref s userData of
        None \<Rightarrow> None
      | Some (p, nle) \<Rightarrow>
          let (r, rs1) = ev_io_stop (loop nle) (p, F_read) (read nle) (reactor s);
              (i, rs2) = ev_io_stop (loop nle) (p, F_write) (write_w nle) rs1;
              (k1, rs3) = ev_async_send (loop nle) (p, F_keepActive) (keepActive nle) rs2;
              (k2, rs4) = ev_async_stop (loop nle) (p, F_keepActive) k1 rs3
          in Some (NATS_OK,
                   s\<lparr>mem := (mem s)(p := nle\<lparr>read := r, write_w := i, keepActive := k2\<rparr>),
                     allocated := allocated s - {p},
                     reactor := rs4\<rparr>))"

subsection \<open>The event loop's side\<close>

text \<open>
  libev's \<^verbatim>\<open>ev_invoke\<close> calls the callback stored in the watcher, with the
  loop, the watcher and the events it reports.
\<close>

definition ev_invoke_io :: "loop_ref \<Rightarrow> ev_io \<Rightarrow> 32 word \<Rightarrow> 'w world \<Rightarrow> 'w world option" where
  "ev_invoke_io l w revents s =
     (case io_cb w of
        CB_natsLibev_ProcessReadEvent \<Rightarrow> natsLibev_ProcessReadEvent l w revents s
      | CB_natsLibev_ProcessEvent \<Rightarrow> natsLibev_ProcessEvent l w revents s)"

definition ev_invoke_idle :: "loop_ref \<Rightarrow> ev_idle \<Rightarrow> 32 word \<Rightarrow> 'w world \<Rightarrow> 'w world option" where
  "ev_invoke_idle l w revents s =
     (case idle_cb w of
        CB_natsLibev_ProcessWriteEvent \<Rightarrow> natsLibev_ProcessWriteEvent l w revents s)"

definition ev_invoke_async :: "loop_ref \<Rightarrow> ev_async \<Rightarrow> 32 word \<Rightarrow> 'w world \<Rightarrow> 'w world option" where
  "ev_invoke_async l w revents s =
     (case async_cb w of CB_keepAliveCb \<Rightarrow> keepAliveCb l w revents s)"

text \<open>
  The loop wakes up for the async watcher of the struct at \<open>p\<close>: it takes the
  watcher's \<^verbatim>\<open>sent\<close> mark back and invokes the callback.
\<close>

definition loop_wakes_up :: "addr \<Rightarrow> 'w world \<Rightarrow> 'w world option" where
  "loop_wakes_up p s =
     (case deref s (Some p) of
        None \<Rightarrow> None
      | Some (_, nle) \<Rightarrow>
          let k = (keepActive nle)\<lparr>async_sent := False\<rparr>
          in ev_invoke_async (loop nle) k EV_ASYNC (s\<lparr>mem := (mem s)(p := nle\<lparr>keepActive := k\<rparr>)\<rparr>))"

subsection \<open>The client library's side\<close>

text \<open>
  The client library keeps one \<^verbatim>\<open>userData\<close> location per connection. It
  passes the address of the location to \<^verbatim>\<open>natsLibev_Attach\<close>
  (\<^verbatim>\<open>void **userData\<close>) and the value in it to the other three
  (\<^verbatim>\<open>void *userData\<close>). \<open>handles\<close> are these locations, by the number of
  the connection; a call names the connection it is made for.
\<close>

type_synonym handles = "nat \<Rightarrow> addr option"

datatype call =
    Attach nat loop_ref conn_ref natsSock "addr option"
  | Read nat bool
  | Write nat bool
  | Detach nat

fun call_idle :: "call \<Rightarrow> handles \<times> idle_world \<Rightarrow> (natsStatus \<times> handles \<times> idle_world) option" where
  "call_idle (Attach i l c socket malloc) (h, s) =
     (case natsLibev_Attach_idle (h i) l c socket malloc s of
        None \<Rightarrow> None
      | Some (st, ud, s') \<Rightarrow> Some (st, h(i := ud), s'))"
| "call_idle (Read i b) (h, s) =
     (case natsLibev_Read_idle (h i) b s of None \<Rightarrow> None | Some (st, s') \<Rightarrow> Some (st, h, s'))"
| "call_idle (Write i b) (h, s) =
     (case natsLibev_Write_idle (h i) b s of None \<Rightarrow> None | Some (st, s') \<Rightarrow> Some (st, h, s'))"
| "call_idle (Detach i) (h, s) =
     (case natsLibev_Detach_idle (h i) s of None \<Rightarrow> None | Some (st, s') \<Rightarrow> Some (st, h, s'))"

fun call_io :: "call \<Rightarrow> handles \<times> io_world \<Rightarrow> (natsStatus \<times> handles \<times> io_world) option" where
  "call_io (Attach i l c socket malloc) (h, s) =
     (case natsLibev_Attach_io (h i) l c socket malloc s of
        None \<Rightarrow> None
      | Some (st, ud, s') \<Rightarrow> Some (st, h(i := ud), s'))"
| "call_io (Read i b) (h, s) =
     (case natsLibev_Read_io (h i) b s of None \<Rightarrow> None | Some (st, s') \<Rightarrow> Some (st, h, s'))"
| "call_io (Write i b) (h, s) =
     (case natsLibev_Write_io (h i) b s of None \<Rightarrow> None | Some (st, s') \<Rightarrow> Some (st, h, s'))"
| "call_io (Detach i) (h, s) =
     (case natsLibev_Detach_io (h i) s of None \<Rightarrow> None | Some (st, s') \<Rightarrow> Some (st, h, s'))"

text \<open>A sequence of calls, with the status each one returned.\<close>

fun run :: "(call \<Rightarrow> 'a \<Rightarrow> (natsStatus \<times> 'a) option) \<Rightarrow> call list \<Rightarrow> 'a \<Rightarrow> (natsStatus list \<times> 'a) option" where
  "run f [] x = Some ([], x)"
| "run f (c # cs) x =
     (case f c x of
        None \<Rightarrow> None
      | Some (st, y) \<Rightarrow>
          (case run f cs y of
             None \<Rightarrow> None
           | Some (sts, z) \<Rightarrow> Some (st # sts, z)))"

text \<open>A call that toggles read or write interest for connection \<open>i\<close>.\<close>

fun is_toggle :: "nat \<Rightarrow> call \<Rightarrow> bool" where
  "is_toggle i (Read j b) = (j = i)"
| "is_toggle i (Write j b) = (j = i)"
| "is_toggle i (Attach j l c socket malloc) = False"
| "is_toggle i (Detach j) = False"

text \<open>What is looked at after a run: the world, the log, the statuses.\<close>

definition final :: "(natsStatus list \<times> handles \<times> 'w world) option \<Rightarrow> 'w world option" where
  "final r = map_option (\<lambda>(sts, h, s). s) r"


definition trace_of :: "'w world \<Rightarrow> event list" where
  "trace_of s = trace (reactor s)"

definition registrations :: "'w world \<Rightarrow> (loop_ref \<times> watcher_ref) set" where
  "registrations s = watchers (reactor s)"


text \<open>
  The registrations of the watchers in the struct at \<open>p\<close>, and those of all other
  watchers.
\<close>

definition owned_by :: "addr \<Rightarrow> (loop_ref \<times> watcher_ref) set \<Rightarrow> (loop_ref \<times> watcher_ref) set" where
  "owned_by p W = {x \<in> W. fst (snd x) = p}"

definition not_owned_by :: "addr \<Rightarrow> (loop_ref \<times> watcher_ref) set \<Rightarrow> (loop_ref \<times> watcher_ref) set" where
  "not_owned_by p W = {x \<in> W. fst (snd x) \<noteq> p}"

definition registrations_at :: "addr \<Rightarrow> 'w world \<Rightarrow> (loop_ref \<times> watcher_ref) set" where
  "registrations_at p s = owned_by p (watchers (reactor s))"

definition registrations_elsewhere :: "addr \<Rightarrow> 'w world \<Rightarrow> (loop_ref \<times> watcher_ref) set" where
  "registrations_elsewhere p s = not_owned_by p (watchers (reactor s))"

text \<open>
  The start: no call has been made. Nothing is allocated, nothing is registered, no
  connection has user data, and every address holds the same bytes \<open>m\<close>.
\<close>

definition start_world :: "'w natsLibevEvents \<Rightarrow> 'w world" where
  "start_world m = \<lparr>mem = (\<lambda>_. m), allocated = {}, reactor = \<lparr>watchers = {}, trace = []\<rparr>\<rparr>"

definition no_handles :: handles where
  "no_handles = (\<lambda>_. None)"

text \<open>
  Memory contents for examples: every flag is set, so that an example shows what the
  adapter initialises.
\<close>

definition junk_io :: ev_io where
  "junk_io = \<lparr>io_active = True, io_data = None, io_cb = CB_natsLibev_ProcessReadEvent,
              io_fd = - 1, io_events = 0xFF\<rparr>"

definition junk_idle :: ev_idle where
  "junk_idle = \<lparr>idle_active = True, idle_data = None, idle_cb = CB_natsLibev_ProcessWriteEvent\<rparr>"

definition junk_async :: ev_async where
  "junk_async = \<lparr>async_active = True, async_cb = CB_keepAliveCb, async_sent = True\<rparr>"

definition junk :: "'w \<Rightarrow> 'w natsLibevEvents" where
  "junk w = \<lparr>nc = 99, loop = 99, read = junk_io, write_w = w, keepActive = junk_async\<rparr>"

subsection \<open>Attached states\<close>

text \<open>
  The registrations of a struct at \<open>p\<close> on the loop \<open>l\<close> whose async watcher is
  active, and whose read and write watchers are active when \<open>r\<close> and \<open>w\<close> say so.
\<close>

definition registrations_of :: "loop_ref \<Rightarrow> addr \<Rightarrow> bool \<Rightarrow> bool \<Rightarrow> (loop_ref \<times> watcher_ref) set" where
  "registrations_of l p r w =
     {(l, (p, F_keepActive))}
     \<union> (if r then {(l, (p, F_read))} else {})
     \<union> (if w then {(l, (p, F_write))} else {})"

text \<open>
  The struct at \<open>p\<close> is attached: it is allocated, its watchers point back to it and
  have the adapter's callbacks, the async watcher is active, and the watchers of the
  struct that are registered are exactly its active ones, on the struct's loop.
\<close>

definition attached_idle :: "idle_world \<Rightarrow> addr \<Rightarrow> bool" where
  "attached_idle s p \<longleftrightarrow>
     p \<in> allocated s \<and>
     io_data (read (mem s p)) = Some p \<and>
     io_cb (read (mem s p)) = CB_natsLibev_ProcessReadEvent \<and>
     idle_data (write_w (mem s p)) = Some p \<and>
     idle_cb (write_w (mem s p)) = CB_natsLibev_ProcessWriteEvent \<and>
     async_cb (keepActive (mem s p)) = CB_keepAliveCb \<and>
     async_active (keepActive (mem s p)) \<and>
     registrations_at p s =
       registrations_of (loop (mem s p)) p
         (io_active (read (mem s p))) (idle_active (write_w (mem s p)))"

definition attached_io :: "io_world \<Rightarrow> addr \<Rightarrow> bool" where
  "attached_io s p \<longleftrightarrow>
     p \<in> allocated s \<and>
     io_data (read (mem s p)) = Some p \<and>
     io_cb (read (mem s p)) = CB_natsLibev_ProcessEvent \<and>
     io_data (write_w (mem s p)) = Some p \<and>
     io_cb (write_w (mem s p)) = CB_natsLibev_ProcessEvent \<and>
     async_cb (keepActive (mem s p)) = CB_keepAliveCb \<and>
     async_active (keepActive (mem s p)) \<and>
     registrations_at p s =
       registrations_of (loop (mem s p)) p
         (io_active (read (mem s p))) (io_active (write_w (mem s p)))"

subsection \<open>Two attached states\<close>

text \<open>
  The state after the first \<^verbatim>\<open>natsLibev_Attach\<close> from the start, for
  connection 0, with loop 1, connection handle 10 and socket 5, when
  \<^verbatim>\<open>malloc\<close> returns the address 0: in the idle variant and in the io
  variant.
\<close>

definition example_idle :: idle_world where
  "example_idle =
     \<lparr>mem = (\<lambda>_. junk junk_idle)
        (0 := \<lparr>nc = 10, loop = 1,
               read = \<lparr>io_active = True, io_data = Some 0, io_cb = CB_natsLibev_ProcessReadEvent,
                        io_fd = 5, io_events = EV_READ\<rparr>,
               write_w = \<lparr>idle_active = False, idle_data = Some 0,
                           idle_cb = CB_natsLibev_ProcessWriteEvent\<rparr>,
               keepActive = \<lparr>async_active = True, async_cb = CB_keepAliveCb, async_sent = True\<rparr>\<rparr>),
      allocated = {0},
      reactor = \<lparr>watchers = {(1, (0, F_read)), (1, (0, F_keepActive))},
                  trace = [Ev_async_start 1 (0, F_keepActive), Ev_io_set (0, F_read) 5 EV_READ,
                           Ev_io_start 1 (0, F_read), Ev_async_send 1 (0, F_keepActive)]\<rparr>\<rparr>"

definition example_io :: io_world where
  "example_io =
     \<lparr>mem = (\<lambda>_. junk junk_io)
        (0 := \<lparr>nc = 10, loop = 1,
               read = \<lparr>io_active = True, io_data = Some 0, io_cb = CB_natsLibev_ProcessEvent,
                        io_fd = 5, io_events = EV_READ\<rparr>,
               write_w = \<lparr>io_active = False, io_data = Some 0, io_cb = CB_natsLibev_ProcessEvent,
                           io_fd = 5, io_events = EV_WRITE\<rparr>,
               keepActive = \<lparr>async_active = True, async_cb = CB_keepAliveCb, async_sent = False\<rparr>\<rparr>),
      allocated = {0},
      reactor = \<lparr>watchers = {(1, (0, F_read)), (1, (0, F_keepActive))},
                  trace = [Ev_async_start 1 (0, F_keepActive), Ev_io_set (0, F_read) 5 EV_READ,
                           Ev_io_start 1 (0, F_read), Ev_io_set (0, F_write) 5 EV_WRITE]\<rparr>\<rparr>"

subsection \<open>What the claims look at\<close>

text \<open>Two states with the same memory and registrations; their logs may differ.\<close>

definition same_watchers :: "'w world \<Rightarrow> 'w world \<Rightarrow> bool" where
  "same_watchers s t \<longleftrightarrow>
     mem s = mem t \<and> allocated s = allocated t \<and> watchers (reactor s) = watchers (reactor t)"

text \<open>The wake signals in a log: the calls of \<^verbatim>\<open>ev_async_send\<close>.\<close>

fun is_wake_signal :: "event \<Rightarrow> bool" where
  "is_wake_signal (Ev_async_send l r) = True"
| "is_wake_signal e = False"

definition wake_signals :: "event list \<Rightarrow> event list" where
  "wake_signals es = filter is_wake_signal es"

text \<open>The async watcher of the struct at \<open>p\<close> after a call.\<close>

definition wake_after :: "addr \<Rightarrow> (natsStatus \<times> handles \<times> 'w world) option \<Rightarrow> ev_async option" where
  "wake_after p r = map_option (\<lambda>(st, h, s). keepActive (mem s p)) r"

text \<open>
  \<open>example_idle\<close> after the loop has woken up for the signal that
  \<^verbatim>\<open>natsLibev_Attach\<close> sent.
\<close>

definition example_idle_woken :: idle_world where
  "example_idle_woken =
     example_idle\<lparr>mem := (mem example_idle)
       (0 := (mem example_idle 0)\<lparr>keepActive :=
                \<lparr>async_active = True, async_cb = CB_keepAliveCb, async_sent = False\<rparr>\<rparr>)\<rparr>"

text \<open>
  The loop reports the events \<open>revents\<close> for the watcher at \<open>r\<close> (it does so
  for watchers that are started on it): it invokes the watcher's callback. In the idle
  variant the write watcher is an idle watcher.
\<close>

definition notify_idle :: "loop_ref \<Rightarrow> watcher_ref \<Rightarrow> 32 word \<Rightarrow> idle_world \<Rightarrow> idle_world option" where
  "notify_idle l r revents s =
     (case deref s (Some (fst r)) of
        None \<Rightarrow> None
      | Some (p, nle) \<Rightarrow>
          (case snd r of
             F_read \<Rightarrow> ev_invoke_io l (read nle) revents s
           | F_write \<Rightarrow> ev_invoke_idle l (write_w nle) revents s
           | F_keepActive \<Rightarrow> ev_invoke_async l (keepActive nle) revents s))"

text \<open>The same in the io variant, where the write watcher is an io watcher.\<close>

definition notify_io :: "loop_ref \<Rightarrow> watcher_ref \<Rightarrow> 32 word \<Rightarrow> io_world \<Rightarrow> io_world option" where
  "notify_io l r revents s =
     (case deref s (Some (fst r)) of
        None \<Rightarrow> None
      | Some (p, nle) \<Rightarrow>
          (case snd r of
             F_read \<Rightarrow> ev_invoke_io l (read nle) revents s
           | F_write \<Rightarrow> ev_invoke_io l (write_w nle) revents s
           | F_keepActive \<Rightarrow> ev_invoke_async l (keepActive nle) revents s))"

text \<open>
  The calls of \<^verbatim>\<open>ev_io_set\<close> on the watcher at \<open>r\<close> in a log: these bind
  the watcher to a descriptor and to events.
\<close>

fun is_binding :: "watcher_ref \<Rightarrow> event \<Rightarrow> bool" where
  "is_binding r (Ev_io_set r' fd events) = (r' = r)"
| "is_binding r e = False"

definition bindings_of :: "watcher_ref \<Rightarrow> event list \<Rightarrow> event list" where
  "bindings_of r es = filter (is_binding r) es"



section \<open>What each function computes\<close>

text \<open>
  The result of every function on a valid pointer, written out: the struct at \<open>p\<close>,
  the registrations and the log after the call. The same facts follow as one lemma per
  function about a call that has returned; and a call on an invalid pointer is
  undefined.
\<close>

lemma ev_io_toggle_eq:
  "ev_io_toggle l r w on rs =
     (w\<lparr>io_active := on\<rparr>,
      rs\<lparr>watchers := toggled (io_active w) on (l, r) (watchers rs),
         trace := trace rs @ [if on then Ev_io_start l r else Ev_io_stop l r]\<rparr>)"
  by (cases "io_active w"; cases on)
     (simp_all add: toggled_def ev_io_toggle_def ev_io_start_def ev_io_stop_def emit_def register_def unregister_def)

lemma ev_idle_toggle_eq:
  "ev_idle_toggle l r w on rs =
     (w\<lparr>idle_active := on\<rparr>,
      rs\<lparr>watchers := toggled (idle_active w) on (l, r) (watchers rs),
         trace := trace rs @ [if on then Ev_idle_start l r else Ev_idle_stop l r]\<rparr>)"
  by (cases "idle_active w"; cases on)
     (simp_all add: toggled_def ev_idle_toggle_def ev_idle_start_def ev_idle_stop_def emit_def register_def unregister_def)

lemma ev_io_stop_eq: "ev_io_stop l r w rs = ev_io_toggle l r w False rs"
  by (simp add: ev_io_toggle_def)

lemma ev_io_start_eq: "ev_io_start l r w rs = ev_io_toggle l r w True rs"
  by (simp add: ev_io_toggle_def)

lemma ev_async_stop_eq:
  "ev_async_stop l r w rs =
     (w\<lparr>async_active := False\<rparr>,
      rs\<lparr>watchers := toggled (async_active w) False (l, r) (watchers rs),
         trace := trace rs @ [Ev_async_stop l r]\<rparr>)"
  by (cases "async_active w")
     (simp_all add: toggled_def ev_async_stop_def emit_def unregister_def)

lemma fun_upd_eqI: "x = y \<Longrightarrow> f(a := x) = f(a := y)"
  by simp

lemma Read_idle_eq:
  "p \<in> allocated s \<Longrightarrow>
   natsLibev_Read_idle (Some p) b s =
     Some (NATS_OK,
       s\<lparr>mem := (mem s)(p := (mem s p)\<lparr>read := (read (mem s p))\<lparr>io_active := b\<rparr>,
                                       keepActive := (keepActive (mem s p))\<lparr>async_sent := True\<rparr>\<rparr>),
         reactor := (reactor s)\<lparr>watchers :=
             toggled (io_active (read (mem s p))) b (loop (mem s p), (p, F_read)) (watchers (reactor s)),
           trace := trace (reactor s) @
             [if b then Ev_io_start (loop (mem s p)) (p, F_read) else Ev_io_stop (loop (mem s p)) (p, F_read),
              Ev_async_send (loop (mem s p)) (p, F_keepActive)]\<rparr>\<rparr>)"
  by (simp add: natsLibev_Read_idle_def deref_def ev_io_toggle_eq ev_async_send_def emit_def)

lemma Write_idle_eq:
  "p \<in> allocated s \<Longrightarrow>
   natsLibev_Write_idle (Some p) b s =
     Some (NATS_OK,
       s\<lparr>mem := (mem s)(p := (mem s p)\<lparr>write_w := (write_w (mem s p))\<lparr>idle_active := b\<rparr>,
                                       keepActive := (keepActive (mem s p))\<lparr>async_sent := True\<rparr>\<rparr>),
         reactor := (reactor s)\<lparr>watchers :=
             toggled (idle_active (write_w (mem s p))) b (loop (mem s p), (p, F_write)) (watchers (reactor s)),
           trace := trace (reactor s) @
             [if b then Ev_idle_start (loop (mem s p)) (p, F_write) else Ev_idle_stop (loop (mem s p)) (p, F_write),
              Ev_async_send (loop (mem s p)) (p, F_keepActive)]\<rparr>\<rparr>)"
  by (simp add: natsLibev_Write_idle_def deref_def ev_idle_toggle_eq ev_async_send_def emit_def)

lemma Read_io_eq:
  "p \<in> allocated s \<Longrightarrow>
   natsLibev_Read_io (Some p) b s =
     Some (NATS_OK,
       s\<lparr>mem := (mem s)(p := (mem s p)\<lparr>read := (read (mem s p))\<lparr>io_active := b\<rparr>\<rparr>),
         reactor := (reactor s)\<lparr>watchers :=
             toggled (io_active (read (mem s p))) b (loop (mem s p), (p, F_read)) (watchers (reactor s)),
           trace := trace (reactor s) @
             [if b then Ev_io_start (loop (mem s p)) (p, F_read) else Ev_io_stop (loop (mem s p)) (p, F_read)]\<rparr>\<rparr>)"
  by (simp add: natsLibev_Read_io_def deref_def ev_io_toggle_eq)

lemma Write_io_eq:
  "p \<in> allocated s \<Longrightarrow>
   natsLibev_Write_io (Some p) b s =
     Some (NATS_OK,
       s\<lparr>mem := (mem s)(p := (mem s p)\<lparr>write_w := (write_w (mem s p))\<lparr>io_active := b\<rparr>\<rparr>),
         reactor := (reactor s)\<lparr>watchers :=
             toggled (io_active (write_w (mem s p))) b (loop (mem s p), (p, F_write)) (watchers (reactor s)),
           trace := trace (reactor s) @
             [if b then Ev_io_start (loop (mem s p)) (p, F_write) else Ev_io_stop (loop (mem s p)) (p, F_write)]\<rparr>\<rparr>)"
  by (simp add: natsLibev_Write_io_def deref_def ev_io_toggle_eq)

lemma attach_first_idle_eq:
  "attach_first_idle l c p s =
     s\<lparr>mem := (mem s)(p := (mem s p)\<lparr>nc := c, loop := l,
            read := (read (mem s p))\<lparr>io_active := False, io_cb := CB_natsLibev_ProcessReadEvent, io_data := Some p\<rparr>,
            write_w := (write_w (mem s p))\<lparr>idle_active := False, idle_cb := CB_natsLibev_ProcessWriteEvent, idle_data := Some p\<rparr>,
            keepActive := (keepActive (mem s p))\<lparr>async_active := True, async_cb := CB_keepAliveCb, async_sent := False\<rparr>\<rparr>),
       allocated := insert p (allocated s),
       reactor := (reactor s)\<lparr>watchers := insert (l, (p, F_keepActive)) (watchers (reactor s)),
                              trace := trace (reactor s) @ [Ev_async_start l (p, F_keepActive)]\<rparr>\<rparr>"
  by (simp add: attach_first_idle_def ev_async_start_def ev_async_init_def ev_init_io_def ev_init_idle_def
      emit_def register_def)
     (auto intro!: fun_upd_eqI world.equality reactor.equality natsLibevEvents.equality
        ev_async.equality ev_io.equality ev_idle.equality)?

lemma attach_again_idle_eq:
  "p \<in> allocated s \<Longrightarrow>
   attach_again_idle p s =
     Some (s\<lparr>mem := (mem s)(p := (mem s p)\<lparr>read := (read (mem s p))\<lparr>io_active := False\<rparr>,
                                   write_w := (write_w (mem s p))\<lparr>idle_active := False\<rparr>,
                                   keepActive := (keepActive (mem s p))\<lparr>async_sent := True\<rparr>\<rparr>),
         reactor := (reactor s)\<lparr>watchers :=
             toggled (idle_active (write_w (mem s p))) False (loop (mem s p), (p, F_write))
               (toggled (io_active (read (mem s p))) False (loop (mem s p), (p, F_read)) (watchers (reactor s))),
           trace := trace (reactor s) @
             [Ev_io_stop (loop (mem s p)) (p, F_read), Ev_async_send (loop (mem s p)) (p, F_keepActive),
              Ev_idle_stop (loop (mem s p)) (p, F_write), Ev_async_send (loop (mem s p)) (p, F_keepActive)]\<rparr>\<rparr>)"
  by (simp add: attach_again_idle_def Read_idle_eq Write_idle_eq)

lemma attach_bind_idle_eq:
  "p \<in> allocated s \<Longrightarrow> \<not> io_active (read (mem s p)) \<Longrightarrow>
   attach_bind_idle p socket s =
     Some (s\<lparr>mem := (mem s)(p := (mem s p)\<lparr>read := (read (mem s p))\<lparr>io_fd := socket, io_events := EV_READ, io_active := True\<rparr>,
                                   keepActive := (keepActive (mem s p))\<lparr>async_sent := True\<rparr>\<rparr>),
         reactor := (reactor s)\<lparr>watchers := insert (loop (mem s p), (p, F_read)) (watchers (reactor s)),
           trace := trace (reactor s) @
             [Ev_io_set (p, F_read) socket EV_READ, Ev_io_start (loop (mem s p)) (p, F_read),
              Ev_async_send (loop (mem s p)) (p, F_keepActive)]\<rparr>\<rparr>)"
  by (simp add: attach_bind_idle_def ev_io_set_def emit_def Read_idle_eq ev_idle_set_def toggled_def)

lemma attach_first_io_eq:
  "attach_first_io l c p s =
     s\<lparr>mem := (mem s)(p := (mem s p)\<lparr>nc := c, loop := l,
            read := (read (mem s p))\<lparr>io_active := False, io_cb := CB_natsLibev_ProcessEvent, io_data := Some p\<rparr>,
            write_w := (write_w (mem s p))\<lparr>io_active := False, io_cb := CB_natsLibev_ProcessEvent, io_data := Some p\<rparr>,
            keepActive := (keepActive (mem s p))\<lparr>async_active := True, async_cb := CB_keepAliveCb, async_sent := False\<rparr>\<rparr>),
       allocated := insert p (allocated s),
       reactor := (reactor s)\<lparr>watchers := insert (l, (p, F_keepActive)) (watchers (reactor s)),
                              trace := trace (reactor s) @ [Ev_async_start l (p, F_keepActive)]\<rparr>\<rparr>"
  by (simp add: attach_first_io_def ev_async_start_def ev_async_init_def ev_init_io_def
      emit_def register_def)
     (auto intro!: fun_upd_eqI world.equality reactor.equality natsLibevEvents.equality
        ev_async.equality ev_io.equality ev_idle.equality)?

lemma attach_again_io_eq:
  "p \<in> allocated s \<Longrightarrow>
   attach_again_io p s =
     Some (s\<lparr>mem := (mem s)(p := (mem s p)\<lparr>read := (read (mem s p))\<lparr>io_active := False\<rparr>,
                                   write_w := (write_w (mem s p))\<lparr>io_active := False\<rparr>\<rparr>),
         reactor := (reactor s)\<lparr>watchers :=
             toggled (io_active (write_w (mem s p))) False (loop (mem s p), (p, F_write))
               (toggled (io_active (read (mem s p))) False (loop (mem s p), (p, F_read)) (watchers (reactor s))),
           trace := trace (reactor s) @
             [Ev_io_stop (loop (mem s p)) (p, F_read), Ev_io_stop (loop (mem s p)) (p, F_write)]\<rparr>\<rparr>)"
  by (simp add: attach_again_io_def deref_def ev_io_stop_eq ev_io_toggle_eq)
     (auto intro!: fun_upd_eqI world.equality reactor.equality natsLibevEvents.equality
        ev_async.equality ev_io.equality ev_idle.equality)?

lemma attach_bind_io_eq:
  "\<not> io_active (read (mem s p)) \<Longrightarrow> \<not> io_active (write_w (mem s p)) \<Longrightarrow>
   attach_bind_io p socket s =
     Some (s\<lparr>mem := (mem s)(p := (mem s p)\<lparr>read := (read (mem s p))\<lparr>io_fd := socket, io_events := EV_READ, io_active := True\<rparr>,
                                   write_w := (write_w (mem s p))\<lparr>io_fd := socket, io_events := EV_WRITE\<rparr>\<rparr>),
         reactor := (reactor s)\<lparr>watchers := insert (loop (mem s p), (p, F_read)) (watchers (reactor s)),
           trace := trace (reactor s) @
             [Ev_io_set (p, F_read) socket EV_READ, Ev_io_start (loop (mem s p)) (p, F_read),
              Ev_io_set (p, F_write) socket EV_WRITE]\<rparr>\<rparr>)"
  by (simp add: Let_def attach_bind_io_def ev_io_set_def emit_def ev_io_start_eq ev_io_toggle_eq toggled_def)
     (auto intro!: fun_upd_eqI world.equality reactor.equality natsLibevEvents.equality
        ev_async.equality ev_io.equality ev_idle.equality)?

lemma Attach_idle_first_eq:
  "natsLibev_Attach_idle None l c socket (Some p) s =
     Some (NATS_OK, Some p,
       s\<lparr>mem := (mem s)(p := (mem s p)\<lparr>nc := c, loop := l,
            read := (read (mem s p))\<lparr>io_active := True, io_cb := CB_natsLibev_ProcessReadEvent, io_data := Some p,
                                      io_fd := socket, io_events := EV_READ\<rparr>,
            write_w := (write_w (mem s p))\<lparr>idle_active := False, idle_cb := CB_natsLibev_ProcessWriteEvent, idle_data := Some p\<rparr>,
            keepActive := (keepActive (mem s p))\<lparr>async_active := True, async_cb := CB_keepAliveCb, async_sent := True\<rparr>\<rparr>),
       allocated := insert p (allocated s),
       reactor := (reactor s)\<lparr>watchers := insert (l, (p, F_read)) (insert (l, (p, F_keepActive)) (watchers (reactor s))),
                              trace := trace (reactor s) @
                                [Ev_async_start l (p, F_keepActive), Ev_io_set (p, F_read) socket EV_READ,
                                 Ev_io_start l (p, F_read), Ev_async_send l (p, F_keepActive)]\<rparr>\<rparr>)"
  by (simp add: natsLibev_Attach_idle_def attach_first_idle_eq attach_bind_idle_eq)
     (auto intro!: fun_upd_eqI world.equality reactor.equality natsLibevEvents.equality
        ev_async.equality ev_io.equality ev_idle.equality)?

lemma Attach_io_first_eq:
  "natsLibev_Attach_io None l c socket (Some p) s =
     Some (NATS_OK, Some p,
       s\<lparr>mem := (mem s)(p := (mem s p)\<lparr>nc := c, loop := l,
            read := (read (mem s p))\<lparr>io_active := True, io_cb := CB_natsLibev_ProcessEvent, io_data := Some p,
                                      io_fd := socket, io_events := EV_READ\<rparr>,
            write_w := (write_w (mem s p))\<lparr>io_active := False, io_cb := CB_natsLibev_ProcessEvent, io_data := Some p,
                                      io_fd := socket, io_events := EV_WRITE\<rparr>,
            keepActive := (keepActive (mem s p))\<lparr>async_active := True, async_cb := CB_keepAliveCb, async_sent := False\<rparr>\<rparr>),
       allocated := insert p (allocated s),
       reactor := (reactor s)\<lparr>watchers := insert (l, (p, F_read)) (insert (l, (p, F_keepActive)) (watchers (reactor s))),
                              trace := trace (reactor s) @
                                [Ev_async_start l (p, F_keepActive), Ev_io_set (p, F_read) socket EV_READ,
                                 Ev_io_start l (p, F_read), Ev_io_set (p, F_write) socket EV_WRITE]\<rparr>\<rparr>)"
  by (simp add: natsLibev_Attach_io_def attach_first_io_eq attach_bind_io_eq)
     (auto intro!: fun_upd_eqI world.equality reactor.equality natsLibevEvents.equality
        ev_async.equality ev_io.equality ev_idle.equality)?

lemma Attach_idle_again_eq:
  "p \<in> allocated s \<Longrightarrow>
   natsLibev_Attach_idle (Some p) l c socket m s =
     Some (NATS_OK, Some p,
       s\<lparr>mem := (mem s)(p := (mem s p)\<lparr>
            read := (read (mem s p))\<lparr>io_active := True, io_fd := socket, io_events := EV_READ\<rparr>,
            write_w := (write_w (mem s p))\<lparr>idle_active := False\<rparr>,
            keepActive := (keepActive (mem s p))\<lparr>async_sent := True\<rparr>\<rparr>),
       reactor := (reactor s)\<lparr>watchers :=
           insert (loop (mem s p), (p, F_read))
            (toggled (idle_active (write_w (mem s p))) False (loop (mem s p), (p, F_write))
               (toggled (io_active (read (mem s p))) False (loop (mem s p), (p, F_read)) (watchers (reactor s)))),
         trace := trace (reactor s) @
            [Ev_io_stop (loop (mem s p)) (p, F_read), Ev_async_send (loop (mem s p)) (p, F_keepActive),
             Ev_idle_stop (loop (mem s p)) (p, F_write), Ev_async_send (loop (mem s p)) (p, F_keepActive),
             Ev_io_set (p, F_read) socket EV_READ, Ev_io_start (loop (mem s p)) (p, F_read),
             Ev_async_send (loop (mem s p)) (p, F_keepActive)]\<rparr>\<rparr>)"
  by (simp add: natsLibev_Attach_idle_def attach_again_idle_eq attach_bind_idle_eq)
     (auto intro!: fun_upd_eqI world.equality reactor.equality natsLibevEvents.equality
        ev_async.equality ev_io.equality ev_idle.equality)?

lemma Attach_io_again_eq:
  "p \<in> allocated s \<Longrightarrow>
   natsLibev_Attach_io (Some p) l c socket m s =
     Some (NATS_OK, Some p,
       s\<lparr>mem := (mem s)(p := (mem s p)\<lparr>
            read := (read (mem s p))\<lparr>io_active := True, io_fd := socket, io_events := EV_READ\<rparr>,
            write_w := (write_w (mem s p))\<lparr>io_active := False, io_fd := socket, io_events := EV_WRITE\<rparr>\<rparr>),
       reactor := (reactor s)\<lparr>watchers :=
           insert (loop (mem s p), (p, F_read))
            (toggled (io_active (write_w (mem s p))) False (loop (mem s p), (p, F_write))
               (toggled (io_active (read (mem s p))) False (loop (mem s p), (p, F_read)) (watchers (reactor s)))),
         trace := trace (reactor s) @
            [Ev_io_stop (loop (mem s p)) (p, F_read), Ev_io_stop (loop (mem s p)) (p, F_write),
             Ev_io_set (p, F_read) socket EV_READ, Ev_io_start (loop (mem s p)) (p, F_read),
             Ev_io_set (p, F_write) socket EV_WRITE]\<rparr>\<rparr>)"
  by (simp add: natsLibev_Attach_io_def attach_again_io_eq attach_bind_io_eq)
     (auto intro!: fun_upd_eqI world.equality reactor.equality natsLibevEvents.equality
        ev_async.equality ev_io.equality ev_idle.equality)?

lemma Detach_idle_eq:
  "p \<in> allocated s \<Longrightarrow>
   natsLibev_Detach_idle (Some p) s =
     Some (NATS_OK,
       s\<lparr>mem := (mem s)(p := (mem s p)\<lparr>read := (read (mem s p))\<lparr>io_active := False\<rparr>,
                                   write_w := (write_w (mem s p))\<lparr>idle_active := False\<rparr>,
                                   keepActive := (keepActive (mem s p))\<lparr>async_sent := True, async_active := False\<rparr>\<rparr>),
         allocated := allocated s - {p},
         reactor := (reactor s)\<lparr>watchers :=
             toggled (async_active (keepActive (mem s p))) False (loop (mem s p), (p, F_keepActive))
              (toggled (idle_active (write_w (mem s p))) False (loop (mem s p), (p, F_write))
               (toggled (io_active (read (mem s p))) False (loop (mem s p), (p, F_read)) (watchers (reactor s)))),
           trace := trace (reactor s) @
             [Ev_io_stop (loop (mem s p)) (p, F_read), Ev_async_send (loop (mem s p)) (p, F_keepActive),
              Ev_idle_stop (loop (mem s p)) (p, F_write), Ev_async_send (loop (mem s p)) (p, F_keepActive),
              Ev_async_stop (loop (mem s p)) (p, F_keepActive)]\<rparr>\<rparr>)"
  by (simp add: natsLibev_Detach_idle_def Read_idle_eq Write_idle_eq deref_def ev_async_stop_eq)
     (auto intro!: fun_upd_eqI world.equality reactor.equality natsLibevEvents.equality
        ev_async.equality ev_io.equality ev_idle.equality)?

lemma Detach_io_eq:
  "p \<in> allocated s \<Longrightarrow>
   natsLibev_Detach_io (Some p) s =
     Some (NATS_OK,
       s\<lparr>mem := (mem s)(p := (mem s p)\<lparr>read := (read (mem s p))\<lparr>io_active := False\<rparr>,
                                   write_w := (write_w (mem s p))\<lparr>io_active := False\<rparr>,
                                   keepActive := (keepActive (mem s p))\<lparr>async_sent := True, async_active := False\<rparr>\<rparr>),
         allocated := allocated s - {p},
         reactor := (reactor s)\<lparr>watchers :=
             toggled (async_active (keepActive (mem s p))) False (loop (mem s p), (p, F_keepActive))
              (toggled (io_active (write_w (mem s p))) False (loop (mem s p), (p, F_write))
               (toggled (io_active (read (mem s p))) False (loop (mem s p), (p, F_read)) (watchers (reactor s)))),
           trace := trace (reactor s) @
             [Ev_io_stop (loop (mem s p)) (p, F_read), Ev_io_stop (loop (mem s p)) (p, F_write),
              Ev_async_send (loop (mem s p)) (p, F_keepActive),
              Ev_async_stop (loop (mem s p)) (p, F_keepActive)]\<rparr>\<rparr>)"
  by (simp add: natsLibev_Detach_io_def deref_def ev_io_stop_eq ev_io_toggle_eq ev_async_stop_eq ev_async_send_def emit_def)
     (auto intro!: fun_upd_eqI world.equality reactor.equality natsLibevEvents.equality
        ev_async.equality ev_io.equality ev_idle.equality)?

lemma Read_idle_sel:
  assumes "p \<in> allocated s"
    and "natsLibev_Read_idle (Some p) b s = Some (st, s')"
  shows "st = NATS_OK"
    and "allocated s' = allocated s"
    and "mem s' = (mem s)(p := (mem s p)\<lparr>read := (read (mem s p))\<lparr>io_active := b\<rparr>,
        keepActive := (keepActive (mem s p))\<lparr>async_sent := True\<rparr>\<rparr>)"
    and "watchers (reactor s') =
       toggled (io_active (read (mem s p))) b (loop (mem s p), (p, F_read)) (watchers (reactor s))"
    and "trace (reactor s') = trace (reactor s) @
       [if b then Ev_io_start (loop (mem s p)) (p, F_read)
        else Ev_io_stop (loop (mem s p)) (p, F_read),
        Ev_async_send (loop (mem s p)) (p, F_keepActive)]"
  using assms by (clarsimp simp: Read_idle_eq)+

lemma Write_idle_sel:
  assumes "p \<in> allocated s"
    and "natsLibev_Write_idle (Some p) b s = Some (st, s')"
  shows "st = NATS_OK"
    and "allocated s' = allocated s"
    and "mem s' = (mem s)(p := (mem s p)\<lparr>write_w := (write_w (mem s p))\<lparr>idle_active := b\<rparr>,
        keepActive := (keepActive (mem s p))\<lparr>async_sent := True\<rparr>\<rparr>)"
    and "watchers (reactor s') =
       toggled (idle_active (write_w (mem s p))) b (loop (mem s p), (p, F_write)) (watchers (reactor s))"
    and "trace (reactor s') = trace (reactor s) @
       [if b then Ev_idle_start (loop (mem s p)) (p, F_write)
        else Ev_idle_stop (loop (mem s p)) (p, F_write),
        Ev_async_send (loop (mem s p)) (p, F_keepActive)]"
  using assms by (clarsimp simp: Write_idle_eq)+

lemma Read_io_sel:
  assumes "p \<in> allocated s"
    and "natsLibev_Read_io (Some p) b s = Some (st, s')"
  shows "st = NATS_OK"
    and "allocated s' = allocated s"
    and "mem s' = (mem s)(p := (mem s p)\<lparr>read := (read (mem s p))\<lparr>io_active := b\<rparr>\<rparr>)"
    and "watchers (reactor s') =
       toggled (io_active (read (mem s p))) b (loop (mem s p), (p, F_read)) (watchers (reactor s))"
    and "trace (reactor s') = trace (reactor s) @
       [if b then Ev_io_start (loop (mem s p)) (p, F_read)
        else Ev_io_stop (loop (mem s p)) (p, F_read)]"
  using assms by (clarsimp simp: Read_io_eq)+

lemma Write_io_sel:
  assumes "p \<in> allocated s"
    and "natsLibev_Write_io (Some p) b s = Some (st, s')"
  shows "st = NATS_OK"
    and "allocated s' = allocated s"
    and "mem s' = (mem s)(p := (mem s p)\<lparr>write_w := (write_w (mem s p))\<lparr>io_active := b\<rparr>\<rparr>)"
    and "watchers (reactor s') =
       toggled (io_active (write_w (mem s p))) b (loop (mem s p), (p, F_write)) (watchers (reactor s))"
    and "trace (reactor s') = trace (reactor s) @
       [if b then Ev_io_start (loop (mem s p)) (p, F_write)
        else Ev_io_stop (loop (mem s p)) (p, F_write)]"
  using assms by (clarsimp simp: Write_io_eq)+

lemma Attach_idle_again_sel:
  assumes "p \<in> allocated s"
    and "natsLibev_Attach_idle (Some p) l c socket m s = Some (st, ud, s')"
  shows "st = NATS_OK"
    and "ud = Some p"
    and "allocated s' = allocated s"
    and "mem s' = (mem s)(p := (mem s p)\<lparr>
        read := (read (mem s p))\<lparr>io_active := True, io_fd := socket, io_events := EV_READ\<rparr>,
        write_w := (write_w (mem s p))\<lparr>idle_active := False\<rparr>,
        keepActive := (keepActive (mem s p))\<lparr>async_sent := True\<rparr>\<rparr>)"
    and "watchers (reactor s') =
       insert (loop (mem s p), (p, F_read))
        (toggled (idle_active (write_w (mem s p))) False (loop (mem s p), (p, F_write))
          (toggled (io_active (read (mem s p))) False (loop (mem s p), (p, F_read)) (watchers (reactor s))))"
    and "trace (reactor s') = trace (reactor s) @
       [Ev_io_stop (loop (mem s p)) (p, F_read), Ev_async_send (loop (mem s p)) (p, F_keepActive),
        Ev_idle_stop (loop (mem s p)) (p, F_write), Ev_async_send (loop (mem s p)) (p, F_keepActive),
        Ev_io_set (p, F_read) socket EV_READ, Ev_io_start (loop (mem s p)) (p, F_read),
        Ev_async_send (loop (mem s p)) (p, F_keepActive)]"
  using assms by (clarsimp simp: Attach_idle_again_eq)+

lemma Attach_io_again_sel:
  assumes "p \<in> allocated s"
    and "natsLibev_Attach_io (Some p) l c socket m s = Some (st, ud, s')"
  shows "st = NATS_OK"
    and "ud = Some p"
    and "allocated s' = allocated s"
    and "mem s' = (mem s)(p := (mem s p)\<lparr>
        read := (read (mem s p))\<lparr>io_active := True, io_fd := socket, io_events := EV_READ\<rparr>,
        write_w := (write_w (mem s p))\<lparr>io_active := False, io_fd := socket, io_events := EV_WRITE\<rparr>\<rparr>)"
    and "watchers (reactor s') =
       insert (loop (mem s p), (p, F_read))
        (toggled (io_active (write_w (mem s p))) False (loop (mem s p), (p, F_write))
          (toggled (io_active (read (mem s p))) False (loop (mem s p), (p, F_read)) (watchers (reactor s))))"
    and "trace (reactor s') = trace (reactor s) @
       [Ev_io_stop (loop (mem s p)) (p, F_read), Ev_io_stop (loop (mem s p)) (p, F_write),
        Ev_io_set (p, F_read) socket EV_READ, Ev_io_start (loop (mem s p)) (p, F_read),
        Ev_io_set (p, F_write) socket EV_WRITE]"
  using assms by (clarsimp simp: Attach_io_again_eq)+

lemma Attach_idle_first_sel:
  assumes "natsLibev_Attach_idle None l c socket (Some q) s = Some (st, ud, s')"
  shows "st = NATS_OK"
    and "ud = Some q"
    and "allocated s' = insert q (allocated s)"
    and "mem s' = (mem s)(q := (mem s q)\<lparr>nc := c, loop := l,
        read := (read (mem s q))\<lparr>io_active := True, io_cb := CB_natsLibev_ProcessReadEvent,
                 io_data := Some q, io_fd := socket, io_events := EV_READ\<rparr>,
        write_w := (write_w (mem s q))\<lparr>idle_active := False,
                 idle_cb := CB_natsLibev_ProcessWriteEvent, idle_data := Some q\<rparr>,
        keepActive := (keepActive (mem s q))\<lparr>async_active := True, async_cb := CB_keepAliveCb,
                 async_sent := True\<rparr>\<rparr>)"
    and "watchers (reactor s') =
       insert (l, (q, F_read)) (insert (l, (q, F_keepActive)) (watchers (reactor s)))"
    and "trace (reactor s') = trace (reactor s) @
       [Ev_async_start l (q, F_keepActive), Ev_io_set (q, F_read) socket EV_READ,
        Ev_io_start l (q, F_read), Ev_async_send l (q, F_keepActive)]"
  using assms by (clarsimp simp: Attach_idle_first_eq)+

lemma Attach_io_first_sel:
  assumes "natsLibev_Attach_io None l c socket (Some q) s = Some (st, ud, s')"
  shows "st = NATS_OK"
    and "ud = Some q"
    and "allocated s' = insert q (allocated s)"
    and "mem s' = (mem s)(q := (mem s q)\<lparr>nc := c, loop := l,
        read := (read (mem s q))\<lparr>io_active := True, io_cb := CB_natsLibev_ProcessEvent,
                 io_data := Some q, io_fd := socket, io_events := EV_READ\<rparr>,
        write_w := (write_w (mem s q))\<lparr>io_active := False, io_cb := CB_natsLibev_ProcessEvent,
                 io_data := Some q, io_fd := socket, io_events := EV_WRITE\<rparr>,
        keepActive := (keepActive (mem s q))\<lparr>async_active := True, async_cb := CB_keepAliveCb,
                 async_sent := False\<rparr>\<rparr>)"
    and "watchers (reactor s') =
       insert (l, (q, F_read)) (insert (l, (q, F_keepActive)) (watchers (reactor s)))"
    and "trace (reactor s') = trace (reactor s) @
       [Ev_async_start l (q, F_keepActive), Ev_io_set (q, F_read) socket EV_READ,
        Ev_io_start l (q, F_read), Ev_io_set (q, F_write) socket EV_WRITE]"
  using assms by (clarsimp simp: Attach_io_first_eq)+

lemma Detach_idle_sel:
  assumes "p \<in> allocated s"
    and "natsLibev_Detach_idle (Some p) s = Some (st, s')"
  shows "st = NATS_OK"
    and "allocated s' = allocated s - {p}"
    and "watchers (reactor s') =
       toggled (async_active (keepActive (mem s p))) False (loop (mem s p), (p, F_keepActive))
        (toggled (idle_active (write_w (mem s p))) False (loop (mem s p), (p, F_write))
          (toggled (io_active (read (mem s p))) False (loop (mem s p), (p, F_read)) (watchers (reactor s))))"
    and "trace (reactor s') = trace (reactor s) @
       [Ev_io_stop (loop (mem s p)) (p, F_read), Ev_async_send (loop (mem s p)) (p, F_keepActive),
        Ev_idle_stop (loop (mem s p)) (p, F_write), Ev_async_send (loop (mem s p)) (p, F_keepActive),
        Ev_async_stop (loop (mem s p)) (p, F_keepActive)]"
  using assms by (clarsimp simp: Detach_idle_eq)+

lemma Detach_io_sel:
  assumes "p \<in> allocated s"
    and "natsLibev_Detach_io (Some p) s = Some (st, s')"
  shows "st = NATS_OK"
    and "allocated s' = allocated s - {p}"
    and "watchers (reactor s') =
       toggled (async_active (keepActive (mem s p))) False (loop (mem s p), (p, F_keepActive))
        (toggled (io_active (write_w (mem s p))) False (loop (mem s p), (p, F_write))
          (toggled (io_active (read (mem s p))) False (loop (mem s p), (p, F_read)) (watchers (reactor s))))"
    and "trace (reactor s') = trace (reactor s) @
       [Ev_io_stop (loop (mem s p)) (p, F_read), Ev_io_stop (loop (mem s p)) (p, F_write),
        Ev_async_send (loop (mem s p)) (p, F_keepActive),
        Ev_async_stop (loop (mem s p)) (p, F_keepActive)]"
  using assms by (clarsimp simp: Detach_io_eq)+






section \<open>Sets of registrations\<close>

text \<open>
  Starts and stops on the registrations of one struct and on those of the others.
\<close>

lemma toggled_twice: "toggled on on x (toggled was on x W) = toggled was on x W"
  by (simp add: toggled_def)

lemma toggled_on_off: "x \<notin> toggled True False x W"
  by (simp add: toggled_def)

lemma owned_toggled:
  "owned_by p (toggled a on (l, (p, f)) W) = toggled a on (l, (p, f)) (owned_by p W)"
  by (auto simp: toggled_def owned_by_def)

lemma owned_insert:
  "owned_by p (insert (l, (p, f)) W) = insert (l, (p, f)) (owned_by p W)"
  by (auto simp: owned_by_def)

lemma not_owned_toggled:
  "not_owned_by p (toggled a on (l, (p, f)) W) = not_owned_by p W"
  by (auto simp: toggled_def not_owned_by_def)

lemma not_owned_insert:
  "not_owned_by p (insert (l, (p, f)) W) = not_owned_by p W"
  by (auto simp: not_owned_by_def)

lemma owned_split: "W = owned_by p W \<union> not_owned_by p W"
  by (auto simp: owned_by_def not_owned_by_def)

lemma regs_toggled_read:
  "toggled a b (l, (p, F_read)) (registrations_of l p a w) = registrations_of l p b w"
  by (cases a; cases b; cases w) (auto simp: toggled_def registrations_of_def)

lemma regs_toggled_write:
  "toggled a b (l, (p, F_write)) (registrations_of l p r a) = registrations_of l p r b"
  by (cases a; cases b; cases r) (auto simp: toggled_def registrations_of_def)

lemma regs_insert_read:
  "insert (l, (p, F_read)) (registrations_of l p False w) = registrations_of l p True w"
  by (cases w) (auto simp: registrations_of_def)

lemma regs_stop_async:
  "toggled True False (l, (p, F_keepActive)) (registrations_of l p False False) = {}"
  by (auto simp: toggled_def registrations_of_def)

lemma regs_first:
  "insert (l, (p, F_read)) (insert (l, (p, F_keepActive)) {}) = registrations_of l p True False"
  by (auto simp: registrations_of_def)

lemma regs_stopped:
  "toggled w False (l, (p, F_write)) (toggled r False (l, (p, F_read)) (registrations_of l p r w))
     = registrations_of l p False False"
  by (simp add: regs_toggled_read regs_toggled_write)

section \<open>Attached states\<close>

text \<open>
  A first attach at an address where no watcher is registered makes an attached state;
  a reconnect, a Read and a Write keep one. The callbacks of an attached state call the
  hooks on its connection.
\<close>

lemma attached_allocated: "attached_idle s p \<Longrightarrow> p \<in> allocated s"
  "attached_io t p \<Longrightarrow> p \<in> allocated t"
  by (simp_all add: attached_idle_def attached_io_def)

lemma attached_idle_Read:
  assumes "attached_idle s p" and "natsLibev_Read_idle (Some p) b s = Some (st, s')"
  shows "attached_idle s' p"
  using assms(1) unfolding attached_idle_def registrations_at_def
  by (simp add: Read_idle_sel [OF attached_allocated(1) [OF assms(1)] assms(2)]
        owned_toggled regs_toggled_read)

lemma attached_idle_Write:
  assumes "attached_idle s p" and "natsLibev_Write_idle (Some p) b s = Some (st, s')"
  shows "attached_idle s' p"
  using assms(1) unfolding attached_idle_def registrations_at_def
  by (simp add: Write_idle_sel [OF attached_allocated(1) [OF assms(1)] assms(2)]
        owned_toggled regs_toggled_write)

lemma attached_io_Read:
  assumes "attached_io s p" and "natsLibev_Read_io (Some p) b s = Some (st, s')"
  shows "attached_io s' p"
  using assms(1) unfolding attached_io_def registrations_at_def
  by (simp add: Read_io_sel [OF attached_allocated(2) [OF assms(1)] assms(2)]
        owned_toggled regs_toggled_read)

lemma attached_io_Write:
  assumes "attached_io s p" and "natsLibev_Write_io (Some p) b s = Some (st, s')"
  shows "attached_io s' p"
  using assms(1) unfolding attached_io_def registrations_at_def
  by (simp add: Write_io_sel [OF attached_allocated(2) [OF assms(1)] assms(2)]
        owned_toggled regs_toggled_write)

lemma attached_idle_Attach_again:
  assumes "attached_idle s p" and "natsLibev_Attach_idle (Some p) l c socket m s = Some (st, ud, s')"
  shows "attached_idle s' p"
    and "registrations_at p s' = registrations_of (loop (mem s p)) p True False"
  using assms(1) unfolding attached_idle_def registrations_at_def
  by (simp_all add: Attach_idle_again_sel [OF attached_allocated(1) [OF assms(1)] assms(2)]
        owned_toggled owned_insert regs_toggled_read regs_toggled_write regs_insert_read)

lemma attached_io_Attach_again:
  assumes "attached_io s p" and "natsLibev_Attach_io (Some p) l c socket m s = Some (st, ud, s')"
  shows "attached_io s' p"
    and "registrations_at p s' = registrations_of (loop (mem s p)) p True False"
  using assms(1) unfolding attached_io_def registrations_at_def
  by (simp_all add: Attach_io_again_sel [OF attached_allocated(2) [OF assms(1)] assms(2)]
        owned_toggled owned_insert regs_toggled_read regs_toggled_write regs_insert_read)

lemma attached_idle_Attach_first:
  assumes "registrations_at q s = {}"
    and "natsLibev_Attach_idle None l c socket (Some q) s = Some (st, ud, s')"
  shows "attached_idle s' q"
    and "registrations_at q s' = registrations_of l q True False"
  using assms(1) unfolding attached_idle_def registrations_at_def
  by (simp_all add: Attach_idle_first_sel [OF assms(2)] owned_insert regs_first)

lemma attached_io_Attach_first:
  assumes "registrations_at q s = {}"
    and "natsLibev_Attach_io None l c socket (Some q) s = Some (st, ud, s')"
  shows "attached_io s' q"
    and "registrations_at q s' = registrations_of l q True False"
  using assms(1) unfolding attached_io_def registrations_at_def
  by (simp_all add: Attach_io_first_sel [OF assms(2)] owned_insert regs_first)

lemma notify_io_read:
  assumes "attached_io t p"
  shows "notify_io l (p, F_read) revents t =
     Some (t\<lparr>reactor := (reactor t)\<lparr>trace := trace (reactor t) @
        (if revents AND EV_READ \<noteq> 0 then [Hook_ProcessReadEvent (nc (mem t p))] else []) @
        (if revents AND EV_WRITE \<noteq> 0 then [Hook_ProcessWriteEvent (nc (mem t p))] else [])\<rparr>\<rparr>)"
  using assms
  by (simp add: attached_io_def notify_io_def deref_def ev_invoke_io_def natsLibev_ProcessEvent_def
        natsConnection_ProcessReadEvent_def natsConnection_ProcessWriteEvent_def emit_def)

lemma notify_io_write:
  assumes "attached_io t p"
  shows "notify_io l (p, F_write) revents t =
     Some (t\<lparr>reactor := (reactor t)\<lparr>trace := trace (reactor t) @
        (if revents AND EV_READ \<noteq> 0 then [Hook_ProcessReadEvent (nc (mem t p))] else []) @
        (if revents AND EV_WRITE \<noteq> 0 then [Hook_ProcessWriteEvent (nc (mem t p))] else [])\<rparr>\<rparr>)"
  using assms
  by (simp add: attached_io_def notify_io_def deref_def ev_invoke_io_def natsLibev_ProcessEvent_def
        natsConnection_ProcessReadEvent_def natsConnection_ProcessWriteEvent_def emit_def)

lemma notify_idle_read:
  assumes "attached_idle s p"
  shows "notify_idle l (p, F_read) revents s =
     Some (s\<lparr>reactor := (reactor s)\<lparr>trace := trace (reactor s) @
        [Hook_ProcessReadEvent (nc (mem s p))]\<rparr>\<rparr>)"
  using assms
  by (simp add: attached_idle_def notify_idle_def deref_def ev_invoke_io_def
        natsLibev_ProcessReadEvent_def natsConnection_ProcessReadEvent_def emit_def)

lemma notify_idle_write:
  assumes "attached_idle s p"
  shows "notify_idle l (p, F_write) revents s =
     Some (s\<lparr>reactor := (reactor s)\<lparr>trace := trace (reactor s) @
        [Hook_ProcessWriteEvent (nc (mem s p))]\<rparr>\<rparr>)"
  using assms
  by (simp add: attached_idle_def notify_idle_def deref_def ev_invoke_idle_def
        natsLibev_ProcessWriteEvent_def natsConnection_ProcessWriteEvent_def emit_def)

lemma Attach_idle_first_binds:
  "\<exists>s'. natsLibev_Attach_idle None l c socket (Some q) s = Some (NATS_OK, Some q, s') \<and>
        io_fd (read (mem s' q)) = socket \<and> io_events (read (mem s' q)) = EV_READ \<and>
        io_active (read (mem s' q)) \<and> \<not> idle_active (write_w (mem s' q)) \<and>
        loop (mem s' q) = l \<and> (l, (q, F_read)) \<in> registrations s' \<and>
        (registrations_at q s = {} \<longrightarrow>
           registrations_at q s' = registrations_of (loop (mem s' q)) q True False)"
proof -
  obtain s' where 1: "natsLibev_Attach_idle None l c socket (Some q) s = Some (NATS_OK, Some q, s')"
    by (simp add: Attach_idle_first_eq)
  note sel = Attach_idle_first_sel [OF 1]
  have f: "io_fd (read (mem s' q)) = socket" "io_events (read (mem s' q)) = EV_READ"
    "io_active (read (mem s' q))" "\<not> idle_active (write_w (mem s' q))"
    "loop (mem s' q) = l"
    by (simp_all add: sel(4))
  have g: "(l, (q, F_read)) \<in> registrations s'"
    by (simp add: registrations_def sel(5))
  have r: "registrations_at q s = {} \<longrightarrow>
           registrations_at q s' = registrations_of (loop (mem s' q)) q True False"
    using attached_idle_Attach_first(2) [OF _ 1] f(5) by simp
  from 1 f g r show ?thesis by blast
qed

lemma Attach_io_first_binds:
  "\<exists>t'. natsLibev_Attach_io None l c socket (Some q) t = Some (NATS_OK, Some q, t') \<and>
        io_fd (read (mem t' q)) = socket \<and> io_events (read (mem t' q)) = EV_READ \<and>
        io_active (read (mem t' q)) \<and>
        io_fd (write_w (mem t' q)) = socket \<and> io_events (write_w (mem t' q)) = EV_WRITE \<and>
        \<not> io_active (write_w (mem t' q)) \<and>
        loop (mem t' q) = l \<and> (l, (q, F_read)) \<in> registrations t' \<and>
        (registrations_at q t = {} \<longrightarrow>
           registrations_at q t' = registrations_of (loop (mem t' q)) q True False)"
proof -
  obtain t' where 1: "natsLibev_Attach_io None l c socket (Some q) t = Some (NATS_OK, Some q, t')"
    by (simp add: Attach_io_first_eq)
  note sel = Attach_io_first_sel [OF 1]
  have f: "io_fd (read (mem t' q)) = socket" "io_events (read (mem t' q)) = EV_READ"
    "io_active (read (mem t' q))"
    "io_fd (write_w (mem t' q)) = socket" "io_events (write_w (mem t' q)) = EV_WRITE"
    "\<not> io_active (write_w (mem t' q))"
    "loop (mem t' q) = l"
    by (simp_all add: sel(4))
  have g: "(l, (q, F_read)) \<in> registrations t'"
    by (simp add: registrations_def sel(5))
  have r: "registrations_at q t = {} \<longrightarrow>
           registrations_at q t' = registrations_of (loop (mem t' q)) q True False"
    using attached_io_Attach_first(2) [OF _ 1] f(7) by simp
  from 1 f g r show ?thesis by blast
qed

lemma Attach_idle_again_binds:
  assumes "attached_idle s p"
  shows "\<exists>s'. natsLibev_Attach_idle (Some p) l c socket m s = Some (NATS_OK, Some p, s') \<and>
        io_fd (read (mem s' p)) = socket \<and> io_events (read (mem s' p)) = EV_READ \<and>
        io_active (read (mem s' p)) \<and> \<not> idle_active (write_w (mem s' p)) \<and>
        registrations_at p s' = registrations_of (loop (mem s' p)) p True False"
proof -
  from assms have al: "p \<in> allocated s" by (rule attached_allocated)
  obtain s' where 1: "natsLibev_Attach_idle (Some p) l c socket m s = Some (NATS_OK, Some p, s')"
    using al by (simp add: Attach_idle_again_eq)
  note sel = Attach_idle_again_sel [OF al 1]
  note at = attached_idle_Attach_again [OF assms 1]
  have f: "io_fd (read (mem s' p)) = socket" "io_events (read (mem s' p)) = EV_READ"
    "io_active (read (mem s' p))" "\<not> idle_active (write_w (mem s' p))"
    "loop (mem s' p) = loop (mem s p)"
    by (simp_all add: sel(4))
  from 1 f at(2) show ?thesis by simp
qed

lemma Attach_io_again_binds:
  assumes "attached_io t p"
  shows "\<exists>t'. natsLibev_Attach_io (Some p) l c socket m t = Some (NATS_OK, Some p, t') \<and>
        io_fd (read (mem t' p)) = socket \<and> io_events (read (mem t' p)) = EV_READ \<and>
        io_active (read (mem t' p)) \<and>
        io_fd (write_w (mem t' p)) = socket \<and> io_events (write_w (mem t' p)) = EV_WRITE \<and>
        \<not> io_active (write_w (mem t' p)) \<and>
        registrations_at p t' = registrations_of (loop (mem t' p)) p True False"
proof -
  from assms have al: "p \<in> allocated t" by (rule attached_allocated)
  obtain t' where 1: "natsLibev_Attach_io (Some p) l c socket m t = Some (NATS_OK, Some p, t')"
    using al by (simp add: Attach_io_again_eq)
  note sel = Attach_io_again_sel [OF al 1]
  note at = attached_io_Attach_again [OF assms 1]
  have f: "io_fd (read (mem t' p)) = socket" "io_events (read (mem t' p)) = EV_READ"
    "io_active (read (mem t' p))"
    "io_fd (write_w (mem t' p)) = socket" "io_events (write_w (mem t' p)) = EV_WRITE"
    "\<not> io_active (write_w (mem t' p))"
    "loop (mem t' p) = loop (mem t p)"
    by (simp_all add: sel(4))
  from 1 f at(2) show ?thesis by simp
qed

section \<open>The example states\<close>

text \<open>
  The example states are reached from the start, and they are attached.
\<close>

lemma example_idle_reached:
  "run call_idle [Attach 0 1 10 5 (Some 0)] (no_handles, start_world (junk junk_idle))
     = Some ([NATS_OK], no_handles(0 := Some 0), example_idle)"
  by (simp add: no_handles_def start_world_def Attach_idle_first_eq example_idle_def junk_def
        junk_io_def junk_idle_def junk_async_def)

lemma example_io_reached:
  "run call_io [Attach 0 1 10 5 (Some 0)] (no_handles, start_world (junk junk_io))
     = Some ([NATS_OK], no_handles(0 := Some 0), example_io)"
  by (simp add: no_handles_def start_world_def Attach_io_first_eq example_io_def junk_def
        junk_io_def junk_async_def)

lemma example_idle_woken_reached: "loop_wakes_up 0 example_idle = Some example_idle_woken"
  by (simp add: loop_wakes_up_def deref_def example_idle_def example_idle_woken_def
        ev_invoke_async_def keepAliveCb_def)

lemma example_idle_attached: "attached_idle example_idle 0"
  by (simp add: attached_idle_def registrations_at_def example_idle_def registrations_of_def
        owned_by_def) auto

lemma example_io_attached: "attached_io example_io 0"
  by (simp add: attached_io_def registrations_at_def example_io_def registrations_of_def
        owned_by_def) auto

lemma start_unused: "registrations_at q (start_world m) = {}"
  by (simp add: registrations_at_def owned_by_def start_world_def)

lemma example_elsewhere:
  "registrations_elsewhere 0 example_idle = {}" "registrations_elsewhere 0 example_io = {}"
  by (auto simp: registrations_elsewhere_def not_owned_by_def example_idle_def example_io_def)

section \<open>Toggles, then a detach\<close>

text \<open>
  Read and Write calls for a connection keep its state attached and leave the
  registrations of other structs alone; a detach of an attached state removes all its
  registrations.
\<close>

lemma run_append:
  "run f (xs @ ys) x =
     (case run f xs x of
        None \<Rightarrow> None
      | Some (sts, y) \<Rightarrow>
          (case run f ys y of None \<Rightarrow> None | Some (sts', z) \<Rightarrow> Some (sts @ sts', z)))"
  by (induction xs arbitrary: x) (auto split: option.splits)

lemma elsewhere_idle_Read:
  assumes "p \<in> allocated s" and "natsLibev_Read_idle (Some p) b s = Some (st, s')"
  shows "registrations_elsewhere p s' = registrations_elsewhere p s"
    and "loop (mem s' p) = loop (mem s p)"
  by (simp_all add: registrations_elsewhere_def Read_idle_sel(3,4) [OF assms] not_owned_toggled)

lemma elsewhere_idle_Write:
  assumes "p \<in> allocated s" and "natsLibev_Write_idle (Some p) b s = Some (st, s')"
  shows "registrations_elsewhere p s' = registrations_elsewhere p s"
    and "loop (mem s' p) = loop (mem s p)"
  by (simp_all add: registrations_elsewhere_def Write_idle_sel(3,4) [OF assms] not_owned_toggled)

lemma elsewhere_io_Read:
  assumes "p \<in> allocated s" and "natsLibev_Read_io (Some p) b s = Some (st, s')"
  shows "registrations_elsewhere p s' = registrations_elsewhere p s"
    and "loop (mem s' p) = loop (mem s p)"
  by (simp_all add: registrations_elsewhere_def Read_io_sel(3,4) [OF assms] not_owned_toggled)

lemma elsewhere_io_Write:
  assumes "p \<in> allocated s" and "natsLibev_Write_io (Some p) b s = Some (st, s')"
  shows "registrations_elsewhere p s' = registrations_elsewhere p s"
    and "loop (mem s' p) = loop (mem s p)"
  by (simp_all add: registrations_elsewhere_def Write_io_sel(3,4) [OF assms] not_owned_toggled)

lemma toggles_idle:
  assumes "h i = Some p" and "list_all (is_toggle i) ts" and "attached_idle s p"
  shows "\<exists>s'. run call_idle ts (h, s) = Some (replicate (length ts) NATS_OK, h, s') \<and>
              attached_idle s' p \<and> allocated s' = allocated s \<and>
              loop (mem s' p) = loop (mem s p) \<and>
              registrations_elsewhere p s' = registrations_elsewhere p s"
  using assms(2,3)
proof (induction ts arbitrary: s)
  case Nil
  then show ?case by simp
next
  case (Cons c ts)
  from Cons.prems(2) have al: "p \<in> allocated s" by (rule attached_allocated)
  from Cons.prems(1) have tl: "list_all (is_toggle i) ts" by simp
  from Cons.prems(1) have "is_toggle i c" by simp
  then consider b where "c = Read i b" | b where "c = Write i b"
    by (cases c) auto
  then show ?case
  proof cases
    case 1
    obtain s1 where r: "natsLibev_Read_idle (Some p) b s = Some (NATS_OK, s1)"
      using al by (simp add: Read_idle_eq)
    note at = attached_idle_Read [OF Cons.prems(2) r]
    note el = elsewhere_idle_Read [OF al r]
    have a1: "allocated s1 = allocated s" by (rule Read_idle_sel(2) [OF al r])
    from Cons.IH [OF tl at] obtain s' where
      "run call_idle ts (h, s1) = Some (replicate (length ts) NATS_OK, h, s')"
      "attached_idle s' p" "allocated s' = allocated s1" "loop (mem s' p) = loop (mem s1 p)"
      "registrations_elsewhere p s' = registrations_elsewhere p s1"
      by blast
    then show ?thesis
      using 1 r assms(1) a1 el by simp
  next
    case 2
    obtain s1 where r: "natsLibev_Write_idle (Some p) b s = Some (NATS_OK, s1)"
      using al by (simp add: Write_idle_eq)
    note at = attached_idle_Write [OF Cons.prems(2) r]
    note el = elsewhere_idle_Write [OF al r]
    have a1: "allocated s1 = allocated s" by (rule Write_idle_sel(2) [OF al r])
    from Cons.IH [OF tl at] obtain s' where
      "run call_idle ts (h, s1) = Some (replicate (length ts) NATS_OK, h, s')"
      "attached_idle s' p" "allocated s' = allocated s1" "loop (mem s' p) = loop (mem s1 p)"
      "registrations_elsewhere p s' = registrations_elsewhere p s1"
      by blast
    then show ?thesis
      using 2 r assms(1) a1 el by simp
  qed
qed

lemma toggles_io:
  assumes "h i = Some p" and "list_all (is_toggle i) ts" and "attached_io s p"
  shows "\<exists>s'. run call_io ts (h, s) = Some (replicate (length ts) NATS_OK, h, s') \<and>
              attached_io s' p \<and> allocated s' = allocated s \<and>
              loop (mem s' p) = loop (mem s p) \<and>
              registrations_elsewhere p s' = registrations_elsewhere p s"
  using assms(2,3)
proof (induction ts arbitrary: s)
  case Nil
  then show ?case by simp
next
  case (Cons c ts)
  from Cons.prems(2) have al: "p \<in> allocated s" by (rule attached_allocated)
  from Cons.prems(1) have tl: "list_all (is_toggle i) ts" by simp
  from Cons.prems(1) have "is_toggle i c" by simp
  then consider b where "c = Read i b" | b where "c = Write i b"
    by (cases c) auto
  then show ?case
  proof cases
    case 1
    obtain s1 where r: "natsLibev_Read_io (Some p) b s = Some (NATS_OK, s1)"
      using al by (simp add: Read_io_eq)
    note at = attached_io_Read [OF Cons.prems(2) r]
    note el = elsewhere_io_Read [OF al r]
    have a1: "allocated s1 = allocated s" by (rule Read_io_sel(2) [OF al r])
    from Cons.IH [OF tl at] obtain s' where
      "run call_io ts (h, s1) = Some (replicate (length ts) NATS_OK, h, s')"
      "attached_io s' p" "allocated s' = allocated s1" "loop (mem s' p) = loop (mem s1 p)"
      "registrations_elsewhere p s' = registrations_elsewhere p s1"
      by blast
    then show ?thesis
      using 1 r assms(1) a1 el by simp
  next
    case 2
    obtain s1 where r: "natsLibev_Write_io (Some p) b s = Some (NATS_OK, s1)"
      using al by (simp add: Write_io_eq)
    note at = attached_io_Write [OF Cons.prems(2) r]
    note el = elsewhere_io_Write [OF al r]
    have a1: "allocated s1 = allocated s" by (rule Write_io_sel(2) [OF al r])
    from Cons.IH [OF tl at] obtain s' where
      "run call_io ts (h, s1) = Some (replicate (length ts) NATS_OK, h, s')"
      "attached_io s' p" "allocated s' = allocated s1" "loop (mem s' p) = loop (mem s1 p)"
      "registrations_elsewhere p s' = registrations_elsewhere p s1"
      by blast
    then show ?thesis
      using 2 r assms(1) a1 el by simp
  qed
qed

lemma Detach_idle_attached:
  assumes "attached_idle s p"
  shows "\<exists>s'. natsLibev_Detach_idle (Some p) s = Some (NATS_OK, s') \<and>
              allocated s' = allocated s - {p} \<and>
              registrations_at p s' = {} \<and>
              registrations s' = registrations_elsewhere p s \<and>
              last (trace_of s') = Ev_async_stop (loop (mem s p)) (p, F_keepActive)"
proof -
  from assms have al: "p \<in> allocated s" by (rule attached_allocated)
  obtain s' where d: "natsLibev_Detach_idle (Some p) s = Some (NATS_OK, s')"
    using al by (simp add: Detach_idle_eq)
  note sel = Detach_idle_sel [OF al d]
  from assms have ka: "async_active (keepActive (mem s p))"
    and rg: "owned_by p (watchers (reactor s)) = registrations_of (loop (mem s p)) p
          (io_active (read (mem s p))) (idle_active (write_w (mem s p)))"
    by (simp_all add: attached_idle_def registrations_at_def)
  have o: "owned_by p (watchers (reactor s')) = {}"
    by (simp add: sel(3) owned_toggled rg regs_toggled_read regs_toggled_write ka regs_stop_async)
  have n: "not_owned_by p (watchers (reactor s')) = not_owned_by p (watchers (reactor s))"
    by (simp add: sel(3) not_owned_toggled)
  have w: "watchers (reactor s') = not_owned_by p (watchers (reactor s))"
    using owned_split [of "watchers (reactor s')" p] o n by simp
  have t: "last (trace_of s') = Ev_async_stop (loop (mem s p)) (p, F_keepActive)"
    by (simp add: trace_of_def sel(4))
  from d sel(2) o w t show ?thesis
    by (simp add: registrations_at_def registrations_def registrations_elsewhere_def)
qed

lemma Detach_io_attached:
  assumes "attached_io s p"
  shows "\<exists>s'. natsLibev_Detach_io (Some p) s = Some (NATS_OK, s') \<and>
              allocated s' = allocated s - {p} \<and>
              registrations_at p s' = {} \<and>
              registrations s' = registrations_elsewhere p s \<and>
              last (trace_of s') = Ev_async_stop (loop (mem s p)) (p, F_keepActive)"
proof -
  from assms have al: "p \<in> allocated s" by (rule attached_allocated)
  obtain s' where d: "natsLibev_Detach_io (Some p) s = Some (NATS_OK, s')"
    using al by (simp add: Detach_io_eq)
  note sel = Detach_io_sel [OF al d]
  from assms have ka: "async_active (keepActive (mem s p))"
    and rg: "owned_by p (watchers (reactor s)) = registrations_of (loop (mem s p)) p
          (io_active (read (mem s p))) (io_active (write_w (mem s p)))"
    by (simp_all add: attached_io_def registrations_at_def)
  have o: "owned_by p (watchers (reactor s')) = {}"
    by (simp add: sel(3) owned_toggled rg regs_toggled_read regs_toggled_write ka regs_stop_async)
  have n: "not_owned_by p (watchers (reactor s')) = not_owned_by p (watchers (reactor s))"
    by (simp add: sel(3) not_owned_toggled)
  have w: "watchers (reactor s') = not_owned_by p (watchers (reactor s))"
    using owned_split [of "watchers (reactor s')" p] o n by simp
  have t: "last (trace_of s') = Ev_async_stop (loop (mem s p)) (p, F_keepActive)"
    by (simp add: trace_of_def sel(4))
  from d sel(2) o w t show ?thesis
    by (simp add: registrations_at_def registrations_def registrations_elsewhere_def)
qed

lemma toggles_then_Detach_idle:
  assumes "attached_idle s p" and "h i = Some p" and "list_all (is_toggle i) ts"
  shows "\<exists>s'. run call_idle (ts @ [Detach i]) (h, s) =
                Some (replicate (length ts) NATS_OK @ [NATS_OK], h, s') \<and>
              allocated s' = allocated s - {p} \<and>
              registrations_at p s' = {} \<and>
              registrations s' = registrations_elsewhere p s \<and>
              last (trace_of s') = Ev_async_stop (loop (mem s p)) (p, F_keepActive)"
proof -
  from toggles_idle [where h = h and i = i, OF assms(2,3,1)] obtain s1 where
    r: "run call_idle ts (h, s) = Some (replicate (length ts) NATS_OK, h, s1)"
    and at: "attached_idle s1 p" and al: "allocated s1 = allocated s"
    and lp: "loop (mem s1 p) = loop (mem s p)"
    and el: "registrations_elsewhere p s1 = registrations_elsewhere p s"
    by blast
  from Detach_idle_attached [OF at] obtain s' where
    d: "natsLibev_Detach_idle (Some p) s1 = Some (NATS_OK, s')"
    and f: "allocated s' = allocated s1 - {p}" "registrations_at p s' = {}"
      "registrations s' = registrations_elsewhere p s1"
      "last (trace_of s') = Ev_async_stop (loop (mem s1 p)) (p, F_keepActive)"
    by blast
  have "run call_idle (ts @ [Detach i]) (h, s) =
          Some (replicate (length ts) NATS_OK @ [NATS_OK], h, s')"
    by (simp add: run_append r assms(2) d)
  with f al lp el show ?thesis by simp
qed

lemma toggles_then_Detach_io:
  assumes "attached_io s p" and "h i = Some p" and "list_all (is_toggle i) ts"
  shows "\<exists>s'. run call_io (ts @ [Detach i]) (h, s) =
                Some (replicate (length ts) NATS_OK @ [NATS_OK], h, s') \<and>
              allocated s' = allocated s - {p} \<and>
              registrations_at p s' = {} \<and>
              registrations s' = registrations_elsewhere p s \<and>
              last (trace_of s') = Ev_async_stop (loop (mem s p)) (p, F_keepActive)"
proof -
  from toggles_io [where h = h and i = i, OF assms(2,3,1)] obtain s1 where
    r: "run call_io ts (h, s) = Some (replicate (length ts) NATS_OK, h, s1)"
    and at: "attached_io s1 p" and al: "allocated s1 = allocated s"
    and lp: "loop (mem s1 p) = loop (mem s p)"
    and el: "registrations_elsewhere p s1 = registrations_elsewhere p s"
    by blast
  from Detach_io_attached [OF at] obtain s' where
    d: "natsLibev_Detach_io (Some p) s1 = Some (NATS_OK, s')"
    and f: "allocated s' = allocated s1 - {p}" "registrations_at p s' = {}"
      "registrations s' = registrations_elsewhere p s1"
      "last (trace_of s') = Ev_async_stop (loop (mem s1 p)) (p, F_keepActive)"
    by blast
  have "run call_io (ts @ [Detach i]) (h, s) =
          Some (replicate (length ts) NATS_OK @ [NATS_OK], h, s')"
    by (simp add: run_append r assms(2) d)
  with f al lp el show ?thesis by simp
qed

section \<open>The two variants, call by call\<close>













section \<open>The claims\<close>

text \<open>
  C1, as the code has it. In the idle variant, \<^verbatim>\<open>natsLibev_Read\<close> and
  \<^verbatim>\<open>natsLibev_Write\<close> on a valid state pointer call
  \<^verbatim>\<open>ev_async_send\<close> on the wake primitive right after the start or stop of
  their watcher, and \<^verbatim>\<open>natsLibev_Attach\<close> calls it right after it has started
  the read watcher: a reconnect on a valid state pointer, and a first attach in any
  state, the start with nothing allocated too. In the io variant the three functions
  make no call of \<^verbatim>\<open>ev_async_send\<close>: the calls they make are listed.
\<close>

theorem C1_wake_signal:
  "(p \<in> allocated s \<longrightarrow>
      (\<exists>s'. natsLibev_Read_idle (Some p) b s = Some (NATS_OK, s') \<and>
            trace_of s' = trace_of s @
              [if b then Ev_io_start (loop (mem s p)) (p, F_read)
               else Ev_io_stop (loop (mem s p)) (p, F_read),
               Ev_async_send (loop (mem s p)) (p, F_keepActive)]) \<and>
      (\<exists>s'. natsLibev_Write_idle (Some p) b s = Some (NATS_OK, s') \<and>
            trace_of s' = trace_of s @
              [if b then Ev_idle_start (loop (mem s p)) (p, F_write)
               else Ev_idle_stop (loop (mem s p)) (p, F_write),
               Ev_async_send (loop (mem s p)) (p, F_keepActive)]) \<and>
      (\<exists>s'. natsLibev_Attach_idle (Some p) l c socket m s = Some (NATS_OK, Some p, s') \<and>
            trace_of s' = trace_of s @
              [Ev_io_stop (loop (mem s p)) (p, F_read),
               Ev_async_send (loop (mem s p)) (p, F_keepActive),
               Ev_idle_stop (loop (mem s p)) (p, F_write),
               Ev_async_send (loop (mem s p)) (p, F_keepActive),
               Ev_io_set (p, F_read) socket EV_READ,
               Ev_io_start (loop (mem s p)) (p, F_read),
               Ev_async_send (loop (mem s p)) (p, F_keepActive)])) \<and>
   (\<exists>s'. natsLibev_Attach_idle None l c socket (Some q) s = Some (NATS_OK, Some q, s') \<and>
         trace_of s' = trace_of s @
           [Ev_async_start l (q, F_keepActive),
            Ev_io_set (q, F_read) socket EV_READ,
            Ev_io_start l (q, F_read),
            Ev_async_send l (q, F_keepActive)]) \<and>
   (p \<in> allocated t \<longrightarrow>
      (\<exists>t'. natsLibev_Read_io (Some p) b t = Some (NATS_OK, t') \<and>
            trace_of t' = trace_of t @
              [if b then Ev_io_start (loop (mem t p)) (p, F_read)
               else Ev_io_stop (loop (mem t p)) (p, F_read)]) \<and>
      (\<exists>t'. natsLibev_Write_io (Some p) b t = Some (NATS_OK, t') \<and>
            trace_of t' = trace_of t @
              [if b then Ev_io_start (loop (mem t p)) (p, F_write)
               else Ev_io_stop (loop (mem t p)) (p, F_write)]) \<and>
      (\<exists>t'. natsLibev_Attach_io (Some p) l c socket m t = Some (NATS_OK, Some p, t') \<and>
            trace_of t' = trace_of t @
              [Ev_io_stop (loop (mem t p)) (p, F_read),
               Ev_io_stop (loop (mem t p)) (p, F_write),
               Ev_io_set (p, F_read) socket EV_READ,
               Ev_io_start (loop (mem t p)) (p, F_read),
               Ev_io_set (p, F_write) socket EV_WRITE])) \<and>
   (\<exists>t'. natsLibev_Attach_io None l c socket (Some q) t = Some (NATS_OK, Some q, t') \<and>
         trace_of t' = trace_of t @
           [Ev_async_start l (q, F_keepActive),
            Ev_io_set (q, F_read) socket EV_READ,
            Ev_io_start l (q, F_read),
            Ev_io_set (q, F_write) socket EV_WRITE])"
proof -
  have a: "p \<in> allocated s \<longrightarrow>
      (\<exists>s'. natsLibev_Read_idle (Some p) b s = Some (NATS_OK, s') \<and>
            trace_of s' = trace_of s @
              [if b then Ev_io_start (loop (mem s p)) (p, F_read)
               else Ev_io_stop (loop (mem s p)) (p, F_read),
               Ev_async_send (loop (mem s p)) (p, F_keepActive)]) \<and>
      (\<exists>s'. natsLibev_Write_idle (Some p) b s = Some (NATS_OK, s') \<and>
            trace_of s' = trace_of s @
              [if b then Ev_idle_start (loop (mem s p)) (p, F_write)
               else Ev_idle_stop (loop (mem s p)) (p, F_write),
               Ev_async_send (loop (mem s p)) (p, F_keepActive)]) \<and>
      (\<exists>s'. natsLibev_Attach_idle (Some p) l c socket m s = Some (NATS_OK, Some p, s') \<and>
            trace_of s' = trace_of s @
              [Ev_io_stop (loop (mem s p)) (p, F_read),
               Ev_async_send (loop (mem s p)) (p, F_keepActive),
               Ev_idle_stop (loop (mem s p)) (p, F_write),
               Ev_async_send (loop (mem s p)) (p, F_keepActive),
               Ev_io_set (p, F_read) socket EV_READ,
               Ev_io_start (loop (mem s p)) (p, F_read),
               Ev_async_send (loop (mem s p)) (p, F_keepActive)])"
    by (simp add: trace_of_def Read_idle_eq Write_idle_eq Attach_idle_again_eq)
  have b: "\<exists>s'. natsLibev_Attach_idle None l c socket (Some q) s = Some (NATS_OK, Some q, s') \<and>
         trace_of s' = trace_of s @
           [Ev_async_start l (q, F_keepActive),
            Ev_io_set (q, F_read) socket EV_READ,
            Ev_io_start l (q, F_read),
            Ev_async_send l (q, F_keepActive)]"
    by (simp add: trace_of_def Attach_idle_first_eq)
  have c: "p \<in> allocated t \<longrightarrow>
      (\<exists>t'. natsLibev_Read_io (Some p) b t = Some (NATS_OK, t') \<and>
            trace_of t' = trace_of t @
              [if b then Ev_io_start (loop (mem t p)) (p, F_read)
               else Ev_io_stop (loop (mem t p)) (p, F_read)]) \<and>
      (\<exists>t'. natsLibev_Write_io (Some p) b t = Some (NATS_OK, t') \<and>
            trace_of t' = trace_of t @
              [if b then Ev_io_start (loop (mem t p)) (p, F_write)
               else Ev_io_stop (loop (mem t p)) (p, F_write)]) \<and>
      (\<exists>t'. natsLibev_Attach_io (Some p) l c socket m t = Some (NATS_OK, Some p, t') \<and>
            trace_of t' = trace_of t @
              [Ev_io_stop (loop (mem t p)) (p, F_read),
               Ev_io_stop (loop (mem t p)) (p, F_write),
               Ev_io_set (p, F_read) socket EV_READ,
               Ev_io_start (loop (mem t p)) (p, F_read),
               Ev_io_set (p, F_write) socket EV_WRITE])"
    by (simp add: trace_of_def Read_io_eq Write_io_eq Attach_io_again_eq)
  have d: "\<exists>t'. natsLibev_Attach_io None l c socket (Some q) t = Some (NATS_OK, Some q, t') \<and>
         trace_of t' = trace_of t @
           [Ev_async_start l (q, F_keepActive),
            Ev_io_set (q, F_read) socket EV_READ,
            Ev_io_start l (q, F_read),
            Ev_io_set (q, F_write) socket EV_WRITE]"
    by (simp add: trace_of_def Attach_io_first_eq)
  from a b c d show ?thesis by (intro conjI)
qed

text \<open>
  The theorem at the start, for the first attach of a program, and at the two example
  states, for a Write with true and a reconnect.
\<close>

theorem C1_wake_signal_witness:
  "0 \<in> allocated example_idle \<and> 0 \<in> allocated example_io \<and>
   (\<exists>s'. natsLibev_Attach_idle None 1 10 5 (Some 0) (start_world (junk junk_idle))
            = Some (NATS_OK, Some 0, s') \<and>
         trace_of s' =
           [Ev_async_start 1 (0, F_keepActive), Ev_io_set (0, F_read) 5 EV_READ,
            Ev_io_start 1 (0, F_read), Ev_async_send 1 (0, F_keepActive)]) \<and>
   (\<exists>t'. natsLibev_Attach_io None 1 10 5 (Some 0) (start_world (junk junk_io))
            = Some (NATS_OK, Some 0, t') \<and>
         trace_of t' =
           [Ev_async_start 1 (0, F_keepActive), Ev_io_set (0, F_read) 5 EV_READ,
            Ev_io_start 1 (0, F_read), Ev_io_set (0, F_write) 5 EV_WRITE]) \<and>
   (\<exists>s'. natsLibev_Write_idle (Some 0) True example_idle = Some (NATS_OK, s') \<and>
         trace_of s' = trace_of example_idle @
           [Ev_idle_start 1 (0, F_write), Ev_async_send 1 (0, F_keepActive)]) \<and>
   (\<exists>s'. natsLibev_Attach_idle (Some 0) 2 20 6 None example_idle = Some (NATS_OK, Some 0, s') \<and>
         trace_of s' = trace_of example_idle @
           [Ev_io_stop 1 (0, F_read), Ev_async_send 1 (0, F_keepActive),
            Ev_idle_stop 1 (0, F_write), Ev_async_send 1 (0, F_keepActive),
            Ev_io_set (0, F_read) 6 EV_READ, Ev_io_start 1 (0, F_read),
            Ev_async_send 1 (0, F_keepActive)]) \<and>
   (\<exists>t'. natsLibev_Write_io (Some 0) True example_io = Some (NATS_OK, t') \<and>
         trace_of t' = trace_of example_io @ [Ev_io_start 1 (0, F_write)]) \<and>
   (\<exists>t'. natsLibev_Attach_io (Some 0) 2 20 6 None example_io = Some (NATS_OK, Some 0, t') \<and>
         trace_of t' = trace_of example_io @
           [Ev_io_stop 1 (0, F_read), Ev_io_stop 1 (0, F_write),
            Ev_io_set (0, F_read) 6 EV_READ, Ev_io_start 1 (0, F_read),
            Ev_io_set (0, F_write) 6 EV_WRITE])"
proof -
  have h1: "0 \<in> allocated example_idle" by (simp add: example_idle_def)
  have h2: "0 \<in> allocated example_io" by (simp add: example_io_def)
  have l1: "loop (mem example_idle 0) = 1" by (simp add: example_idle_def)
  have l2: "loop (mem example_io 0) = 1" by (simp add: example_io_def)
  have e1: "trace_of (start_world (junk junk_idle)) = []"
    and e2: "trace_of (start_world (junk junk_io)) = []"
    by (simp_all add: trace_of_def start_world_def)
  note first = C1_wake_signal [where s = "start_world (junk junk_idle)"
      and t = "start_world (junk junk_io)" and l = 1 and c = 10 and socket = 5 and q = 0
      and p = 0 and b = True and m = None]
  note again = C1_wake_signal [where s = example_idle and t = example_io and p = 0
      and b = True and l = 2 and c = 20 and socket = 6 and m = None and q = 0]
  from first have f1: "\<exists>s'. natsLibev_Attach_idle None 1 10 5 (Some 0) (start_world (junk junk_idle))
            = Some (NATS_OK, Some 0, s') \<and>
         trace_of s' =
           [Ev_async_start 1 (0, F_keepActive), Ev_io_set (0, F_read) 5 EV_READ,
            Ev_io_start 1 (0, F_read), Ev_async_send 1 (0, F_keepActive)]"
    by (simp only: e1 append_Nil)
  from first have f2: "\<exists>t'. natsLibev_Attach_io None 1 10 5 (Some 0) (start_world (junk junk_io))
            = Some (NATS_OK, Some 0, t') \<and>
         trace_of t' =
           [Ev_async_start 1 (0, F_keepActive), Ev_io_set (0, F_read) 5 EV_READ,
            Ev_io_start 1 (0, F_read), Ev_io_set (0, F_write) 5 EV_WRITE]"
    by (simp only: e2 append_Nil)
  from again h1 h2 have r:
    "(\<exists>s'. natsLibev_Write_idle (Some 0) True example_idle = Some (NATS_OK, s') \<and>
         trace_of s' = trace_of example_idle @
           [Ev_idle_start 1 (0, F_write), Ev_async_send 1 (0, F_keepActive)]) \<and>
     (\<exists>s'. natsLibev_Attach_idle (Some 0) 2 20 6 None example_idle = Some (NATS_OK, Some 0, s') \<and>
         trace_of s' = trace_of example_idle @
           [Ev_io_stop 1 (0, F_read), Ev_async_send 1 (0, F_keepActive),
            Ev_idle_stop 1 (0, F_write), Ev_async_send 1 (0, F_keepActive),
            Ev_io_set (0, F_read) 6 EV_READ, Ev_io_start 1 (0, F_read),
            Ev_async_send 1 (0, F_keepActive)]) \<and>
     (\<exists>t'. natsLibev_Write_io (Some 0) True example_io = Some (NATS_OK, t') \<and>
         trace_of t' = trace_of example_io @ [Ev_io_start 1 (0, F_write)]) \<and>
     (\<exists>t'. natsLibev_Attach_io (Some 0) 2 20 6 None example_io = Some (NATS_OK, Some 0, t') \<and>
         trace_of t' = trace_of example_io @
           [Ev_io_stop 1 (0, F_read), Ev_io_stop 1 (0, F_write),
            Ev_io_set (0, F_read) 6 EV_READ, Ev_io_start 1 (0, F_read),
            Ev_io_set (0, F_write) 6 EV_WRITE])"
    by (simp add: l1 l2)
  from h1 h2 f1 f2 r show ?thesis by (intro conjI) blast+
qed

text \<open>
  The claim C1 as stated, for both variants, fails in the io variant: the log of a
  first attach, a Read and a Write from the start holds no wake signal.
\<close>

theorem C1_counterexample:
  "map_option trace_of
     (final (run call_io [Attach 0 1 10 5 (Some 0), Read 0 False, Write 0 True]
                (no_handles, start_world (junk junk_io))))
     = Some [Ev_async_start 1 (0, F_keepActive), Ev_io_set (0, F_read) 5 EV_READ,
             Ev_io_start 1 (0, F_read), Ev_io_set (0, F_write) 5 EV_WRITE,
             Ev_io_stop 1 (0, F_read), Ev_io_start 1 (0, F_write)] \<and>
   map_option wake_signals (map_option trace_of
     (final (run call_io [Attach 0 1 10 5 (Some 0), Read 0 False, Write 0 True]
                (no_handles, start_world (junk junk_io)))))
     = Some []"
  by (simp add: final_def trace_of_def wake_signals_def no_handles_def start_world_def
        Attach_io_first_eq Read_io_eq Write_io_eq)

text \<open>
  C2, as the code has it. After \<^verbatim>\<open>natsLibev_Attach\<close> with the socket
  \<open>socket\<close>, in both variants, the call returns \<^verbatim>\<open>NATS_OK\<close> and the
  pointer, the read watcher has the descriptor \<open>socket\<close> and the events
  \<^verbatim>\<open>EV_READ\<close> and is active, and the write watcher is inactive: for a
  reconnect on an attached state at \<open>p\<close>, and for a first attach
  (\<^verbatim>\<open>NULL\<close>, and \<^verbatim>\<open>malloc\<close> returns \<open>q\<close>) in any state, the
  start with nothing allocated too. The read watcher is registered on the struct's loop;
  of the struct's watchers exactly the async and the read watcher are registered (on a
  first attach: when no watcher was registered at \<open>q\<close> before). In the io variant the
  write watcher has the descriptor \<open>socket\<close> and the events
  \<^verbatim>\<open>EV_WRITE\<close>. In the idle variant the write watcher is an idle watcher, which
  has no descriptor and no events.
\<close>

theorem C2_attach_binds:
  "(attached_idle s p \<longrightarrow>
      (\<exists>s'. natsLibev_Attach_idle (Some p) l c socket m s = Some (NATS_OK, Some p, s') \<and>
            io_fd (read (mem s' p)) = socket \<and> io_events (read (mem s' p)) = EV_READ \<and>
            io_active (read (mem s' p)) \<and> \<not> idle_active (write_w (mem s' p)) \<and>
            registrations_at p s' = registrations_of (loop (mem s' p)) p True False)) \<and>
   (\<exists>s'. natsLibev_Attach_idle None l c socket (Some q) s = Some (NATS_OK, Some q, s') \<and>
         io_fd (read (mem s' q)) = socket \<and> io_events (read (mem s' q)) = EV_READ \<and>
         io_active (read (mem s' q)) \<and> \<not> idle_active (write_w (mem s' q)) \<and>
         loop (mem s' q) = l \<and> (l, (q, F_read)) \<in> registrations s' \<and>
         (registrations_at q s = {} \<longrightarrow>
            registrations_at q s' = registrations_of (loop (mem s' q)) q True False)) \<and>
   (attached_io t p \<longrightarrow>
      (\<exists>t'. natsLibev_Attach_io (Some p) l c socket m t = Some (NATS_OK, Some p, t') \<and>
            io_fd (read (mem t' p)) = socket \<and> io_events (read (mem t' p)) = EV_READ \<and>
            io_active (read (mem t' p)) \<and>
            io_fd (write_w (mem t' p)) = socket \<and> io_events (write_w (mem t' p)) = EV_WRITE \<and>
            \<not> io_active (write_w (mem t' p)) \<and>
            registrations_at p t' = registrations_of (loop (mem t' p)) p True False)) \<and>
   (\<exists>t'. natsLibev_Attach_io None l c socket (Some q) t = Some (NATS_OK, Some q, t') \<and>
         io_fd (read (mem t' q)) = socket \<and> io_events (read (mem t' q)) = EV_READ \<and>
         io_active (read (mem t' q)) \<and>
         io_fd (write_w (mem t' q)) = socket \<and> io_events (write_w (mem t' q)) = EV_WRITE \<and>
         \<not> io_active (write_w (mem t' q)) \<and>
         loop (mem t' q) = l \<and> (l, (q, F_read)) \<in> registrations t' \<and>
         (registrations_at q t = {} \<longrightarrow>
            registrations_at q t' = registrations_of (loop (mem t' q)) q True False))"
  using Attach_idle_again_binds [of s p l c socket m] Attach_idle_first_binds [of l c socket q s]
    Attach_io_again_binds [of t p l c socket m] Attach_io_first_binds [of l c socket q t]
  by (intro conjI impI) assumption+

text \<open>
  The theorem at the start, for the first attach of a program to socket 5, and at the
  two example states, for a reconnect to socket 6.
\<close>

theorem C2_attach_binds_witness:
  "registrations_at 0 (start_world (junk junk_idle)) = {} \<and>
   registrations_at 0 (start_world (junk junk_io)) = {} \<and>
   attached_idle example_idle 0 \<and> attached_io example_io 0 \<and>
   (\<exists>s'. natsLibev_Attach_idle None 1 10 5 (Some 0) (start_world (junk junk_idle))
            = Some (NATS_OK, Some 0, s') \<and>
         io_fd (read (mem s' 0)) = 5 \<and> io_events (read (mem s' 0)) = EV_READ \<and>
         io_active (read (mem s' 0)) \<and> \<not> idle_active (write_w (mem s' 0)) \<and>
         registrations_at 0 s' = registrations_of 1 0 True False) \<and>
   (\<exists>t'. natsLibev_Attach_io None 1 10 5 (Some 0) (start_world (junk junk_io))
            = Some (NATS_OK, Some 0, t') \<and>
         io_fd (read (mem t' 0)) = 5 \<and> io_events (read (mem t' 0)) = EV_READ \<and>
         io_active (read (mem t' 0)) \<and>
         io_fd (write_w (mem t' 0)) = 5 \<and> io_events (write_w (mem t' 0)) = EV_WRITE \<and>
         \<not> io_active (write_w (mem t' 0)) \<and>
         registrations_at 0 t' = registrations_of 1 0 True False) \<and>
   (\<exists>s'. natsLibev_Attach_idle (Some 0) 1 10 6 None example_idle = Some (NATS_OK, Some 0, s') \<and>
         io_fd (read (mem s' 0)) = 6 \<and> io_events (read (mem s' 0)) = EV_READ \<and>
         io_active (read (mem s' 0)) \<and> \<not> idle_active (write_w (mem s' 0))) \<and>
   (\<exists>t'. natsLibev_Attach_io (Some 0) 1 10 6 None example_io = Some (NATS_OK, Some 0, t') \<and>
         io_fd (write_w (mem t' 0)) = 6 \<and> io_events (write_w (mem t' 0)) = EV_WRITE \<and>
         \<not> io_active (write_w (mem t' 0)))"
proof -
  note first = C2_attach_binds [where s = "start_world (junk junk_idle)"
      and t = "start_world (junk junk_io)" and l = 1 and c = 10 and socket = 5 and q = 0
      and p = 0 and m = None]
  note again = C2_attach_binds [where s = example_idle and t = example_io and p = 0
      and l = 1 and c = 10 and socket = 6 and m = None and q = 0]
  have u1: "registrations_at 0 (start_world (junk junk_idle)) = {}"
    and u2: "registrations_at 0 (start_world (junk junk_io)) = {}"
    by (rule start_unused)+
  from first obtain s' where
    "natsLibev_Attach_idle None 1 10 5 (Some 0) (start_world (junk junk_idle))
       = Some (NATS_OK, Some 0, s')"
    "io_fd (read (mem s' 0)) = 5" "io_events (read (mem s' 0)) = EV_READ"
    "io_active (read (mem s' 0))" "\<not> idle_active (write_w (mem s' 0))"
    "loop (mem s' 0) = 1"
    "registrations_at 0 (start_world (junk junk_idle)) = {} \<longrightarrow>
       registrations_at 0 s' = registrations_of (loop (mem s' 0)) 0 True False"
    by blast
  with u1 have f1: "\<exists>s'. natsLibev_Attach_idle None 1 10 5 (Some 0) (start_world (junk junk_idle))
            = Some (NATS_OK, Some 0, s') \<and>
         io_fd (read (mem s' 0)) = 5 \<and> io_events (read (mem s' 0)) = EV_READ \<and>
         io_active (read (mem s' 0)) \<and> \<not> idle_active (write_w (mem s' 0)) \<and>
         registrations_at 0 s' = registrations_of 1 0 True False"
    by simp
  from first obtain t' where
    "natsLibev_Attach_io None 1 10 5 (Some 0) (start_world (junk junk_io))
       = Some (NATS_OK, Some 0, t')"
    "io_fd (read (mem t' 0)) = 5" "io_events (read (mem t' 0)) = EV_READ"
    "io_active (read (mem t' 0))"
    "io_fd (write_w (mem t' 0)) = 5" "io_events (write_w (mem t' 0)) = EV_WRITE"
    "\<not> io_active (write_w (mem t' 0))"
    "loop (mem t' 0) = 1"
    "registrations_at 0 (start_world (junk junk_io)) = {} \<longrightarrow>
       registrations_at 0 t' = registrations_of (loop (mem t' 0)) 0 True False"
    by blast
  with u2 have f2: "\<exists>t'. natsLibev_Attach_io None 1 10 5 (Some 0) (start_world (junk junk_io))
            = Some (NATS_OK, Some 0, t') \<and>
         io_fd (read (mem t' 0)) = 5 \<and> io_events (read (mem t' 0)) = EV_READ \<and>
         io_active (read (mem t' 0)) \<and>
         io_fd (write_w (mem t' 0)) = 5 \<and> io_events (write_w (mem t' 0)) = EV_WRITE \<and>
         \<not> io_active (write_w (mem t' 0)) \<and>
         registrations_at 0 t' = registrations_of 1 0 True False"
    by simp
  from again example_idle_attached have r1:
    "\<exists>s'. natsLibev_Attach_idle (Some 0) 1 10 6 None example_idle = Some (NATS_OK, Some 0, s') \<and>
         io_fd (read (mem s' 0)) = 6 \<and> io_events (read (mem s' 0)) = EV_READ \<and>
         io_active (read (mem s' 0)) \<and> \<not> idle_active (write_w (mem s' 0))"
    by blast
  from again example_io_attached have r2:
    "\<exists>t'. natsLibev_Attach_io (Some 0) 1 10 6 None example_io = Some (NATS_OK, Some 0, t') \<and>
         io_fd (write_w (mem t' 0)) = 6 \<and> io_events (write_w (mem t' 0)) = EV_WRITE \<and>
         \<not> io_active (write_w (mem t' 0))"
    by blast
  from u1 u2 example_idle_attached example_io_attached f1 f2 r1 r2
  show ?thesis by (intro conjI)
qed

text \<open>
  The claim C2 as stated fails in the idle variant: the write watcher is not bound to
  the socket. The log of an attach to socket 5 and a Write with \<open>true\<close> holds no
  \<^verbatim>\<open>ev_io_set\<close> on the write watcher, which is started as an idle watcher;
  the log of the same calls in the io variant binds it to socket 5 for
  \<^verbatim>\<open>EV_WRITE\<close>.
\<close>

theorem C2_counterexample:
  "map_option trace_of
     (final (run call_idle [Attach 0 1 10 5 (Some 0), Write 0 True]
               (no_handles, start_world (junk junk_idle))))
     = Some [Ev_async_start 1 (0, F_keepActive), Ev_io_set (0, F_read) 5 EV_READ,
             Ev_io_start 1 (0, F_read), Ev_async_send 1 (0, F_keepActive),
             Ev_idle_start 1 (0, F_write), Ev_async_send 1 (0, F_keepActive)] \<and>
   map_option (bindings_of (0, F_write))
     (map_option trace_of
        (final (run call_idle [Attach 0 1 10 5 (Some 0), Write 0 True]
                  (no_handles, start_world (junk junk_idle)))))
     = Some [] \<and>
   map_option (bindings_of (0, F_write))
     (map_option trace_of
        (final (run call_io [Attach 0 1 10 5 (Some 0), Write 0 True]
                  (no_handles, start_world (junk junk_io)))))
     = Some [Ev_io_set (0, F_write) 5 EV_WRITE]"
  by (simp add: final_def trace_of_def bindings_of_def no_handles_def start_world_def
        Attach_idle_first_eq Write_idle_eq Attach_io_first_eq Write_io_eq)

text \<open>
  C3, as the code has it. A reconnecting \<^verbatim>\<open>natsLibev_Attach\<close> on an
  attached state ignores its loop and connection arguments \<open>l\<close> and \<open>c\<close>:
  the struct keeps the \<^verbatim>\<open>loop\<close> and \<^verbatim>\<open>nc\<close> of the first attach. The
  read watcher is registered on that loop, a later Write with \<open>true\<close> registers
  the write watcher on that loop, and the callbacks call the hooks on that connection.
\<close>

theorem C3_reconnect_keeps_handles:
  assumes "attached_idle s p" and "attached_io t p"
  shows
    "(\<exists>s' s''. natsLibev_Attach_idle (Some p) l c socket m s = Some (NATS_OK, Some p, s') \<and>
         loop (mem s' p) = loop (mem s p) \<and> nc (mem s' p) = nc (mem s p) \<and>
         registrations_at p s' = registrations_of (loop (mem s p)) p True False \<and>
         natsLibev_Write_idle (Some p) True s' = Some (NATS_OK, s'') \<and>
         registrations_at p s'' = registrations_of (loop (mem s p)) p True True \<and>
         map_option trace_of (notify_idle l (p, F_read) revents s'') =
           Some (trace_of s'' @ [Hook_ProcessReadEvent (nc (mem s p))]) \<and>
         map_option trace_of (notify_idle l (p, F_write) revents s'') =
           Some (trace_of s'' @ [Hook_ProcessWriteEvent (nc (mem s p))])) \<and>
     (\<exists>t' t''. natsLibev_Attach_io (Some p) l c socket m t = Some (NATS_OK, Some p, t') \<and>
         loop (mem t' p) = loop (mem t p) \<and> nc (mem t' p) = nc (mem t p) \<and>
         registrations_at p t' = registrations_of (loop (mem t p)) p True False \<and>
         natsLibev_Write_io (Some p) True t' = Some (NATS_OK, t'') \<and>
         registrations_at p t'' = registrations_of (loop (mem t p)) p True True \<and>
         map_option trace_of (notify_io l (p, F_read) EV_READ t'') =
           Some (trace_of t'' @ [Hook_ProcessReadEvent (nc (mem t p))]) \<and>
         map_option trace_of (notify_io l (p, F_write) EV_WRITE t'') =
           Some (trace_of t'' @ [Hook_ProcessWriteEvent (nc (mem t p))]))"
proof -
  have ev: "EV_READ \<noteq> 0" "EV_READ AND EV_WRITE = 0"
    "EV_WRITE AND EV_READ = 0" "EV_WRITE \<noteq> 0"
    by (simp_all add: EV_READ_def EV_WRITE_def)
  have a: "\<exists>s' s''. natsLibev_Attach_idle (Some p) l c socket m s = Some (NATS_OK, Some p, s') \<and>
         loop (mem s' p) = loop (mem s p) \<and> nc (mem s' p) = nc (mem s p) \<and>
         registrations_at p s' = registrations_of (loop (mem s p)) p True False \<and>
         natsLibev_Write_idle (Some p) True s' = Some (NATS_OK, s'') \<and>
         registrations_at p s'' = registrations_of (loop (mem s p)) p True True \<and>
         map_option trace_of (notify_idle l (p, F_read) revents s'') =
           Some (trace_of s'' @ [Hook_ProcessReadEvent (nc (mem s p))]) \<and>
         map_option trace_of (notify_idle l (p, F_write) revents s'') =
           Some (trace_of s'' @ [Hook_ProcessWriteEvent (nc (mem s p))])"
  proof -
    from assms(1) have al: "p \<in> allocated s" by (rule attached_allocated)
    obtain s' where 1: "natsLibev_Attach_idle (Some p) l c socket m s = Some (NATS_OK, Some p, s')"
      using al by (simp add: Attach_idle_again_eq)
    note sel1 = Attach_idle_again_sel [OF al 1]
    note at1 = attached_idle_Attach_again [OF assms(1) 1]
    from at1(1) have al1: "p \<in> allocated s'" by (rule attached_allocated)
    obtain s'' where 2: "natsLibev_Write_idle (Some p) True s' = Some (NATS_OK, s'')"
      using al1 by (simp add: Write_idle_eq)
    note sel2 = Write_idle_sel [OF al1 2]
    note at2 = attached_idle_Write [OF at1(1) 2]
    have l1: "loop (mem s' p) = loop (mem s p)" and n1: "nc (mem s' p) = nc (mem s p)"
      by (simp_all add: sel1(4))
    have l2: "loop (mem s'' p) = loop (mem s p)" and n2: "nc (mem s'' p) = nc (mem s p)"
      by (simp_all add: sel2(3) sel1(4))
    have f2: "io_active (read (mem s'' p))" "idle_active (write_w (mem s'' p))"
      by (simp_all add: sel2(3) sel1(4))
    from at2 have "registrations_at p s'' = registrations_of (loop (mem s'' p)) p
        (io_active (read (mem s'' p))) (idle_active (write_w (mem s'' p)))"
      unfolding attached_idle_def by blast
    then have r2: "registrations_at p s'' = registrations_of (loop (mem s p)) p True True"
      by (simp only: l2 f2)
    have h1: "map_option trace_of (notify_idle l (p, F_read) revents s'') =
           Some (trace_of s'' @ [Hook_ProcessReadEvent (nc (mem s p))])"
      by (simp add: notify_idle_read [OF at2] trace_of_def n2)
    have h2: "map_option trace_of (notify_idle l (p, F_write) revents s'') =
           Some (trace_of s'' @ [Hook_ProcessWriteEvent (nc (mem s p))])"
      by (simp add: notify_idle_write [OF at2] trace_of_def n2)
    from 1 l1 n1 at1(2) 2 r2 h1 h2 show ?thesis by blast
  qed
  have b: "\<exists>t' t''. natsLibev_Attach_io (Some p) l c socket m t = Some (NATS_OK, Some p, t') \<and>
         loop (mem t' p) = loop (mem t p) \<and> nc (mem t' p) = nc (mem t p) \<and>
         registrations_at p t' = registrations_of (loop (mem t p)) p True False \<and>
         natsLibev_Write_io (Some p) True t' = Some (NATS_OK, t'') \<and>
         registrations_at p t'' = registrations_of (loop (mem t p)) p True True \<and>
         map_option trace_of (notify_io l (p, F_read) EV_READ t'') =
           Some (trace_of t'' @ [Hook_ProcessReadEvent (nc (mem t p))]) \<and>
         map_option trace_of (notify_io l (p, F_write) EV_WRITE t'') =
           Some (trace_of t'' @ [Hook_ProcessWriteEvent (nc (mem t p))])"
  proof -
    from assms(2) have al: "p \<in> allocated t" by (rule attached_allocated)
    obtain t' where 1: "natsLibev_Attach_io (Some p) l c socket m t = Some (NATS_OK, Some p, t')"
      using al by (simp add: Attach_io_again_eq)
    note sel1 = Attach_io_again_sel [OF al 1]
    note at1 = attached_io_Attach_again [OF assms(2) 1]
    from at1(1) have al1: "p \<in> allocated t'" by (rule attached_allocated)
    obtain t'' where 2: "natsLibev_Write_io (Some p) True t' = Some (NATS_OK, t'')"
      using al1 by (simp add: Write_io_eq)
    note sel2 = Write_io_sel [OF al1 2]
    note at2 = attached_io_Write [OF at1(1) 2]
    have l1: "loop (mem t' p) = loop (mem t p)" and n1: "nc (mem t' p) = nc (mem t p)"
      by (simp_all add: sel1(4))
    have l2: "loop (mem t'' p) = loop (mem t p)" and n2: "nc (mem t'' p) = nc (mem t p)"
      by (simp_all add: sel2(3) sel1(4))
    have f2: "io_active (read (mem t'' p))" "io_active (write_w (mem t'' p))"
      by (simp_all add: sel2(3) sel1(4))
    from at2 have "registrations_at p t'' = registrations_of (loop (mem t'' p)) p
        (io_active (read (mem t'' p))) (io_active (write_w (mem t'' p)))"
      unfolding attached_io_def by blast
    then have r2: "registrations_at p t'' = registrations_of (loop (mem t p)) p True True"
      by (simp only: l2 f2)
    have h1: "map_option trace_of (notify_io l (p, F_read) EV_READ t'') =
           Some (trace_of t'' @ [Hook_ProcessReadEvent (nc (mem t p))])"
      by (simp add: notify_io_read [OF at2] trace_of_def n2 ev)
    have h2: "map_option trace_of (notify_io l (p, F_write) EV_WRITE t'') =
           Some (trace_of t'' @ [Hook_ProcessWriteEvent (nc (mem t p))])"
      by (simp add: notify_io_write [OF at2] trace_of_def n2 ev)
    from 1 l1 n1 at1(2) 2 r2 h1 h2 show ?thesis by blast
  qed
  from a b show ?thesis by blast
qed

text \<open>
  The theorem at the two example states, for a reconnect with loop 2 and connection 20:
  the struct keeps loop 1 and connection 10.
\<close>

theorem C3_reconnect_keeps_handles_witness:
  "attached_idle example_idle 0 \<and> attached_io example_io 0 \<and>
   (\<exists>t'. natsLibev_Attach_io (Some 0) 2 20 6 None example_io = Some (NATS_OK, Some 0, t') \<and>
         loop (mem t' 0) = 1 \<and> nc (mem t' 0) = 10) \<and>
   (\<exists>s'. natsLibev_Attach_idle (Some 0) 2 20 6 None example_idle = Some (NATS_OK, Some 0, s') \<and>
         loop (mem s' 0) = 1 \<and> nc (mem s' 0) = 10)"
proof -
  have a: "loop (mem example_io 0) = 1" "nc (mem example_io 0) = 10"
    "loop (mem example_idle 0) = 1" "nc (mem example_idle 0) = 10"
    by (simp_all add: example_idle_def example_io_def)
  note th = C3_reconnect_keeps_handles [OF example_idle_attached example_io_attached,
      where l = 2 and c = 20 and socket = 6 and m = None and revents = EV_READ]
  from th obtain t' where
    "natsLibev_Attach_io (Some 0) 2 20 6 None example_io = Some (NATS_OK, Some 0, t')"
    "loop (mem t' 0) = loop (mem example_io 0)" "nc (mem t' 0) = nc (mem example_io 0)"
    by blast
  moreover from th obtain s' where
    "natsLibev_Attach_idle (Some 0) 2 20 6 None example_idle = Some (NATS_OK, Some 0, s')"
    "loop (mem s' 0) = loop (mem example_idle 0)" "nc (mem s' 0) = nc (mem example_idle 0)"
    by blast
  ultimately show ?thesis
    using example_idle_attached example_io_attached by (simp add: a)
qed

text \<open>
  The claim C3 as stated fails (here in the io variant): after a first attach with loop
  1 and connection 10 and a reconnect with loop 2 and connection 20, a Write with
  \<open>true\<close> registers on loop 1, all registrations are on loop 1, and a read-ready
  notification calls the read hook on connection 10.
\<close>

theorem C3_counterexample:
  "map_option registrations
     (final (run call_io [Attach 0 1 10 5 (Some 0), Attach 0 2 20 6 None, Write 0 True]
               (no_handles, start_world (junk junk_io))))
     = Some {(1, (0, F_write)), (1, (0, F_read)), (1, (0, F_keepActive))} \<and>
   map_option trace_of
     (Option.bind
        (final (run call_io [Attach 0 1 10 5 (Some 0), Attach 0 2 20 6 None, Write 0 True]
                  (no_handles, start_world (junk junk_io))))
        (notify_io 2 (0, F_read) EV_READ))
     = Some [Ev_async_start 1 (0, F_keepActive), Ev_io_set (0, F_read) 5 EV_READ,
             Ev_io_start 1 (0, F_read), Ev_io_set (0, F_write) 5 EV_WRITE,
             Ev_io_stop 1 (0, F_read), Ev_io_stop 1 (0, F_write),
             Ev_io_set (0, F_read) 6 EV_READ, Ev_io_start 1 (0, F_read),
             Ev_io_set (0, F_write) 6 EV_WRITE,
             Ev_io_start 1 (0, F_write),
             Hook_ProcessReadEvent 10]"
  by (simp add: final_def registrations_def trace_of_def no_handles_def start_world_def
        Attach_io_first_eq Attach_io_again_eq Write_io_eq toggled_def notify_io_def deref_def
        ev_invoke_io_def natsLibev_ProcessEvent_def natsConnection_ProcessReadEvent_def emit_def
        EV_READ_def EV_WRITE_def)

text \<open>
  C4. For \<^verbatim>\<open>natsLibev_Attach\<close> on an attached state at \<open>p\<close>, in both
  variants: the call returns \<^verbatim>\<open>NATS_OK\<close> and the same pointer, and the
  allocated structs are those of before, whatever \<^verbatim>\<open>malloc\<close> would
  return. The reconnect branch comes first: after it the read and the write watcher
  are inactive, the read watcher still has its previous descriptor, and of the
  struct's watchers only the async watcher is registered. The binding of the read
  watcher to the new socket comes after, as the log shows: the stops precede
  \<^verbatim>\<open>ev_io_set\<close>.
\<close>

theorem C4_reconnect_reuses_state:
  assumes "attached_idle s p" and "attached_io t p"
  shows
    "(\<exists>s1 s'. attach_again_idle p s = Some s1 \<and>
              \<not> io_active (read (mem s1 p)) \<and> \<not> idle_active (write_w (mem s1 p)) \<and>
              io_fd (read (mem s1 p)) = io_fd (read (mem s p)) \<and>
              registrations_at p s1 = registrations_of (loop (mem s p)) p False False \<and>
              attach_bind_idle p socket s1 = Some s' \<and>
              natsLibev_Attach_idle (Some p) l c socket m s = Some (NATS_OK, Some p, s') \<and>
              allocated s' = allocated s \<and>
              trace_of s' = trace_of s @
                [Ev_io_stop (loop (mem s p)) (p, F_read),
                 Ev_async_send (loop (mem s p)) (p, F_keepActive),
                 Ev_idle_stop (loop (mem s p)) (p, F_write),
                 Ev_async_send (loop (mem s p)) (p, F_keepActive),
                 Ev_io_set (p, F_read) socket EV_READ,
                 Ev_io_start (loop (mem s p)) (p, F_read),
                 Ev_async_send (loop (mem s p)) (p, F_keepActive)]) \<and>
     (\<exists>t1 t'. attach_again_io p t = Some t1 \<and>
              \<not> io_active (read (mem t1 p)) \<and> \<not> io_active (write_w (mem t1 p)) \<and>
              io_fd (read (mem t1 p)) = io_fd (read (mem t p)) \<and>
              io_fd (write_w (mem t1 p)) = io_fd (write_w (mem t p)) \<and>
              registrations_at p t1 = registrations_of (loop (mem t p)) p False False \<and>
              attach_bind_io p socket t1 = Some t' \<and>
              natsLibev_Attach_io (Some p) l c socket m t = Some (NATS_OK, Some p, t') \<and>
              allocated t' = allocated t \<and>
              trace_of t' = trace_of t @
                [Ev_io_stop (loop (mem t p)) (p, F_read),
                 Ev_io_stop (loop (mem t p)) (p, F_write),
                 Ev_io_set (p, F_read) socket EV_READ,
                 Ev_io_start (loop (mem t p)) (p, F_read),
                 Ev_io_set (p, F_write) socket EV_WRITE])"
proof -
  from assms have al: "p \<in> allocated s" "p \<in> allocated t"
    by (simp_all add: attached_allocated)
  from assms(1) have rs: "owned_by p (watchers (reactor s)) =
      registrations_of (loop (mem s p)) p (io_active (read (mem s p))) (idle_active (write_w (mem s p)))"
    by (simp add: attached_idle_def registrations_at_def)
  from assms(2) have rt: "owned_by p (watchers (reactor t)) =
      registrations_of (loop (mem t p)) p (io_active (read (mem t p))) (io_active (write_w (mem t p)))"
    by (simp add: attached_io_def registrations_at_def)
  have a: "\<exists>s1 s'. attach_again_idle p s = Some s1 \<and>
              \<not> io_active (read (mem s1 p)) \<and> \<not> idle_active (write_w (mem s1 p)) \<and>
              io_fd (read (mem s1 p)) = io_fd (read (mem s p)) \<and>
              registrations_at p s1 = registrations_of (loop (mem s p)) p False False \<and>
              attach_bind_idle p socket s1 = Some s' \<and>
              natsLibev_Attach_idle (Some p) l c socket m s = Some (NATS_OK, Some p, s') \<and>
              allocated s' = allocated s \<and>
              trace_of s' = trace_of s @
                [Ev_io_stop (loop (mem s p)) (p, F_read),
                 Ev_async_send (loop (mem s p)) (p, F_keepActive),
                 Ev_idle_stop (loop (mem s p)) (p, F_write),
                 Ev_async_send (loop (mem s p)) (p, F_keepActive),
                 Ev_io_set (p, F_read) socket EV_READ,
                 Ev_io_start (loop (mem s p)) (p, F_read),
                 Ev_async_send (loop (mem s p)) (p, F_keepActive)]"
    using al(1)
    by (simp add: natsLibev_Attach_idle_def attach_again_idle_eq attach_bind_idle_eq
          registrations_at_def owned_toggled rs regs_stopped trace_of_def)
  have b: "\<exists>t1 t'. attach_again_io p t = Some t1 \<and>
              \<not> io_active (read (mem t1 p)) \<and> \<not> io_active (write_w (mem t1 p)) \<and>
              io_fd (read (mem t1 p)) = io_fd (read (mem t p)) \<and>
              io_fd (write_w (mem t1 p)) = io_fd (write_w (mem t p)) \<and>
              registrations_at p t1 = registrations_of (loop (mem t p)) p False False \<and>
              attach_bind_io p socket t1 = Some t' \<and>
              natsLibev_Attach_io (Some p) l c socket m t = Some (NATS_OK, Some p, t') \<and>
              allocated t' = allocated t \<and>
              trace_of t' = trace_of t @
                [Ev_io_stop (loop (mem t p)) (p, F_read),
                 Ev_io_stop (loop (mem t p)) (p, F_write),
                 Ev_io_set (p, F_read) socket EV_READ,
                 Ev_io_start (loop (mem t p)) (p, F_read),
                 Ev_io_set (p, F_write) socket EV_WRITE]"
    using al(2)
    by (simp add: natsLibev_Attach_io_def attach_again_io_eq attach_bind_io_eq
          registrations_at_def owned_toggled rt regs_stopped trace_of_def)
  from a b show ?thesis by blast
qed

text \<open>
  The theorem at the two example states, for a reconnect to socket 6.
\<close>

theorem C4_reconnect_reuses_state_witness:
  "attached_idle example_idle 0 \<and> attached_io example_io 0 \<and>
   (\<exists>s'. natsLibev_Attach_idle (Some 0) 2 20 6 (Some 1) example_idle = Some (NATS_OK, Some 0, s') \<and>
         allocated s' = {0}) \<and>
   (\<exists>t'. natsLibev_Attach_io (Some 0) 2 20 6 (Some 1) example_io = Some (NATS_OK, Some 0, t') \<and>
         allocated t' = {0} \<and>
         trace_of t' = trace_of example_io @
           [Ev_io_stop 1 (0, F_read), Ev_io_stop 1 (0, F_write), Ev_io_set (0, F_read) 6 EV_READ,
            Ev_io_start 1 (0, F_read), Ev_io_set (0, F_write) 6 EV_WRITE])"
proof -
  have a: "allocated example_idle = {0}" "allocated example_io = {0}"
    "loop (mem example_io 0) = 1"
    by (simp_all add: example_idle_def example_io_def)
  from C4_reconnect_reuses_state [OF example_idle_attached example_io_attached, of 6 2 20 "Some 1"]
  show ?thesis
    by (auto simp: a example_idle_attached example_io_attached)
qed

text \<open>
  C5. For an attached state at \<open>p\<close> that is the handle of connection \<open>i\<close>,
  and any list \<open>ts\<close> of Read and Write calls for \<open>i\<close> (the empty list too),
  followed by \<^verbatim>\<open>natsLibev_Detach\<close>, in both variants: every call returns
  \<^verbatim>\<open>NATS_OK\<close>; the struct at \<open>p\<close> is freed and no other; no watcher of
  the struct is registered any more, and the registrations are those that other
  structs had before; the last call to libev is the \<^verbatim>\<open>ev_async_stop\<close> of
  the wake primitive.
\<close>

theorem C5_detach_releases:
  assumes "attached_idle s p" and "attached_io t p"
    and "h i = Some p" and "list_all (is_toggle i) ts"
  shows
    "(\<exists>s'. run call_idle (ts @ [Detach i]) (h, s) =
              Some (replicate (length ts) NATS_OK @ [NATS_OK], h, s') \<and>
            allocated s' = allocated s - {p} \<and>
            registrations_at p s' = {} \<and>
            registrations s' = registrations_elsewhere p s \<and>
            last (trace_of s') = Ev_async_stop (loop (mem s p)) (p, F_keepActive)) \<and>
     (\<exists>t'. run call_io (ts @ [Detach i]) (h, t) =
              Some (replicate (length ts) NATS_OK @ [NATS_OK], h, t') \<and>
            allocated t' = allocated t - {p} \<and>
            registrations_at p t' = {} \<and>
            registrations t' = registrations_elsewhere p t \<and>
            last (trace_of t') = Ev_async_stop (loop (mem t p)) (p, F_keepActive))"
  using toggles_then_Detach_idle [where h = h and i = i, OF assms(1,3,4)]
    toggles_then_Detach_io [where h = h and i = i, OF assms(2,3,4)]
  by blast

text \<open>
  The theorem at the two example states, where connection 0 is the only one: after
  three toggles and a detach, and after a detach right away, nothing is allocated and
  nothing is registered.
\<close>

theorem C5_detach_releases_witness:
  "attached_idle example_idle 0 \<and> attached_io example_io 0 \<and>
   (no_handles(0 := Some 0)) 0 = Some 0 \<and>
   list_all (is_toggle 0) [Write 0 True, Read 0 False, Read 0 True] \<and>
   (\<exists>s'. run call_idle [Write 0 True, Read 0 False, Read 0 True, Detach 0]
            (no_handles(0 := Some 0), example_idle) =
            Some ([NATS_OK, NATS_OK, NATS_OK, NATS_OK], no_handles(0 := Some 0), s') \<and>
          allocated s' = {} \<and> registrations s' = {}) \<and>
   (\<exists>t'. run call_io [Detach 0] (no_handles(0 := Some 0), example_io) =
            Some ([NATS_OK], no_handles(0 := Some 0), t') \<and>
          allocated t' = {} \<and> registrations t' = {})"
proof -
  have h: "(no_handles(0 := Some 0)) 0 = Some 0" by simp
  have l3: "list_all (is_toggle 0) [Write 0 True, Read 0 False, Read 0 True]" by simp
  have l0: "list_all (is_toggle 0) []" by simp
  have a: "allocated example_idle = {0}" "allocated example_io = {0}"
    by (simp_all add: example_idle_def example_io_def)
  from C5_detach_releases [where h = "no_handles(0 := Some 0)" and i = 0,
      OF example_idle_attached example_io_attached h l3]
  obtain s' where
    "run call_idle ([Write 0 True, Read 0 False, Read 0 True] @ [Detach 0])
       (no_handles(0 := Some 0), example_idle) =
       Some (replicate (length [Write 0 True, Read 0 False, Read 0 True]) NATS_OK @ [NATS_OK],
             no_handles(0 := Some 0), s')"
    "allocated s' = allocated example_idle - {0}"
    "registrations s' = registrations_elsewhere 0 example_idle"
    by blast
  then have 1: "\<exists>s'. run call_idle [Write 0 True, Read 0 False, Read 0 True, Detach 0]
            (no_handles(0 := Some 0), example_idle) =
            Some ([NATS_OK, NATS_OK, NATS_OK, NATS_OK], no_handles(0 := Some 0), s') \<and>
          allocated s' = {} \<and> registrations s' = {}"
    by (simp add: a example_elsewhere numeral_3_eq_3)
  from C5_detach_releases [where h = "no_handles(0 := Some 0)" and i = 0,
      OF example_idle_attached example_io_attached h l0]
  obtain t' where
    "run call_io ([] @ [Detach 0]) (no_handles(0 := Some 0), example_io) =
       Some (replicate (length ([] :: call list)) NATS_OK @ [NATS_OK], no_handles(0 := Some 0), t')"
    "allocated t' = allocated example_io - {0}"
    "registrations t' = registrations_elsewhere 0 example_io"
    by blast
  then have 2: "\<exists>t'. run call_io [Detach 0] (no_handles(0 := Some 0), example_io) =
            Some ([NATS_OK], no_handles(0 := Some 0), t') \<and>
          allocated t' = {} \<and> registrations t' = {}"
    by (simp add: a example_elsewhere)
  from 1 2 example_idle_attached example_io_attached h l3 show ?thesis by blast
qed

text \<open>
  C6. For a valid state pointer and every \<open>b\<close>, in both variants:
  \<^verbatim>\<open>natsLibev_Read\<close> and \<^verbatim>\<open>natsLibev_Write\<close> return
  \<^verbatim>\<open>NATS_OK\<close>, and calling one twice with the same \<open>b\<close> leaves the
  memory and the registrations as one call does. Read with \<open>true\<close> followed by
  Read with \<open>false\<close> leaves the read watcher inactive and not registered on the
  state's loop, whatever it was before.
\<close>

theorem C6_toggles_idempotent:
  assumes "p \<in> allocated s" and "p \<in> allocated t"
  shows
    "(\<exists>s1 s2. natsLibev_Read_idle (Some p) b s = Some (NATS_OK, s1) \<and>
              natsLibev_Read_idle (Some p) b s1 = Some (NATS_OK, s2) \<and> same_watchers s1 s2) \<and>
     (\<exists>s1 s2. natsLibev_Write_idle (Some p) b s = Some (NATS_OK, s1) \<and>
              natsLibev_Write_idle (Some p) b s1 = Some (NATS_OK, s2) \<and> same_watchers s1 s2) \<and>
     (\<exists>t1 t2. natsLibev_Read_io (Some p) b t = Some (NATS_OK, t1) \<and>
              natsLibev_Read_io (Some p) b t1 = Some (NATS_OK, t2) \<and> same_watchers t1 t2) \<and>
     (\<exists>t1 t2. natsLibev_Write_io (Some p) b t = Some (NATS_OK, t1) \<and>
              natsLibev_Write_io (Some p) b t1 = Some (NATS_OK, t2) \<and> same_watchers t1 t2) \<and>
     (\<exists>s1 s2. natsLibev_Read_idle (Some p) True s = Some (NATS_OK, s1) \<and>
              natsLibev_Read_idle (Some p) False s1 = Some (NATS_OK, s2) \<and>
              \<not> io_active (read (mem s2 p)) \<and>
              (loop (mem s2 p), (p, F_read)) \<notin> registrations s2) \<and>
     (\<exists>t1 t2. natsLibev_Read_io (Some p) True t = Some (NATS_OK, t1) \<and>
              natsLibev_Read_io (Some p) False t1 = Some (NATS_OK, t2) \<and>
              \<not> io_active (read (mem t2 p)) \<and>
              (loop (mem t2 p), (p, F_read)) \<notin> registrations t2)"
proof -
  have a: "\<exists>s1 s2. natsLibev_Read_idle (Some p) b s = Some (NATS_OK, s1) \<and>
              natsLibev_Read_idle (Some p) b s1 = Some (NATS_OK, s2) \<and> same_watchers s1 s2"
    using assms(1) by (simp add: Read_idle_eq same_watchers_def toggled_twice)
  have b: "\<exists>s1 s2. natsLibev_Write_idle (Some p) b s = Some (NATS_OK, s1) \<and>
              natsLibev_Write_idle (Some p) b s1 = Some (NATS_OK, s2) \<and> same_watchers s1 s2"
    using assms(1) by (simp add: Write_idle_eq same_watchers_def toggled_twice)
  have c: "\<exists>t1 t2. natsLibev_Read_io (Some p) b t = Some (NATS_OK, t1) \<and>
              natsLibev_Read_io (Some p) b t1 = Some (NATS_OK, t2) \<and> same_watchers t1 t2"
    using assms(2) by (simp add: Read_io_eq same_watchers_def toggled_twice)
  have d: "\<exists>t1 t2. natsLibev_Write_io (Some p) b t = Some (NATS_OK, t1) \<and>
              natsLibev_Write_io (Some p) b t1 = Some (NATS_OK, t2) \<and> same_watchers t1 t2"
    using assms(2) by (simp add: Write_io_eq same_watchers_def toggled_twice)
  have e: "\<exists>s1 s2. natsLibev_Read_idle (Some p) True s = Some (NATS_OK, s1) \<and>
              natsLibev_Read_idle (Some p) False s1 = Some (NATS_OK, s2) \<and>
              \<not> io_active (read (mem s2 p)) \<and>
              (loop (mem s2 p), (p, F_read)) \<notin> registrations s2"
    using assms(1) by (simp add: Read_idle_eq registrations_def toggled_on_off)
  have f: "\<exists>t1 t2. natsLibev_Read_io (Some p) True t = Some (NATS_OK, t1) \<and>
              natsLibev_Read_io (Some p) False t1 = Some (NATS_OK, t2) \<and>
              \<not> io_active (read (mem t2 p)) \<and>
              (loop (mem t2 p), (p, F_read)) \<notin> registrations t2"
    using assms(2) by (simp add: Read_io_eq registrations_def toggled_on_off)
  from a b c d e f show ?thesis by blast
qed

text \<open>The theorem at the two example states: Read with true, then false, and Write with true twice.\<close>

theorem C6_toggles_idempotent_witness:
  "0 \<in> allocated example_idle \<and> 0 \<in> allocated example_io \<and>
   (\<exists>s1 s2. natsLibev_Read_idle (Some 0) True example_idle = Some (NATS_OK, s1) \<and>
            natsLibev_Read_idle (Some 0) False s1 = Some (NATS_OK, s2) \<and>
            \<not> io_active (read (mem s2 0)) \<and>
            (loop (mem s2 0), (0, F_read)) \<notin> registrations s2) \<and>
   (\<exists>t1 t2. natsLibev_Write_io (Some 0) True example_io = Some (NATS_OK, t1) \<and>
            natsLibev_Write_io (Some 0) True t1 = Some (NATS_OK, t2) \<and> same_watchers t1 t2)"
proof -
  have h1: "0 \<in> allocated example_idle" by (simp add: example_idle_def)
  have h2: "0 \<in> allocated example_io" by (simp add: example_io_def)
  from C6_toggles_idempotent [OF h1 h2, of True] h1 h2 show ?thesis by blast
qed

text \<open>
  C7. A first attach (\<^verbatim>\<open>*userData\<close> is \<^verbatim>\<open>NULL\<close>) whose
  \<^verbatim>\<open>malloc\<close> fails returns \<^verbatim>\<open>NATS_NO_MEMORY\<close> and leaves
  everything as it was, in both variants: the state after the call is the state before
  it (no struct, no registration of a watcher or of the async watcher, no call to
  libev), and \<^verbatim>\<open>*userData\<close> is still \<^verbatim>\<open>NULL\<close>.
\<close>

theorem C7_attach_no_memory:
  "natsLibev_Attach_idle None l c socket None s = Some (NATS_NO_MEMORY, None, s) \<and>
   natsLibev_Attach_io None l c socket None t = Some (NATS_NO_MEMORY, None, t)"
  by (simp add: natsLibev_Attach_idle_def natsLibev_Attach_io_def)



text \<open>
  C9, as the code has it. For a notification that the loop delivers to a watcher of an
  attached state, with the events \<open>revents\<close>: in the io variant the callback of
  the read and of the write watcher calls the read hook once exactly when
  \<open>revents\<close> has \<^verbatim>\<open>EV_READ\<close>, then the write hook once exactly when
  \<open>revents\<close> has \<^verbatim>\<open>EV_WRITE\<close>, on the connection of the state, and
  calls nothing else. In the idle variant the callback of the read watcher calls the
  read hook once and the callback of the (idle) write watcher calls the write hook
  once, on the connection of the state, whatever \<open>revents\<close> is.
\<close>

theorem C9_dispatch:
  assumes "attached_io t p" and "attached_idle s p"
  shows
    "notify_io l (p, F_read) revents t =
       Some (t\<lparr>reactor := (reactor t)\<lparr>trace := trace (reactor t) @
          (if revents AND EV_READ \<noteq> 0 then [Hook_ProcessReadEvent (nc (mem t p))] else []) @
          (if revents AND EV_WRITE \<noteq> 0 then [Hook_ProcessWriteEvent (nc (mem t p))] else [])\<rparr>\<rparr>) \<and>
     notify_io l (p, F_write) revents t =
       Some (t\<lparr>reactor := (reactor t)\<lparr>trace := trace (reactor t) @
          (if revents AND EV_READ \<noteq> 0 then [Hook_ProcessReadEvent (nc (mem t p))] else []) @
          (if revents AND EV_WRITE \<noteq> 0 then [Hook_ProcessWriteEvent (nc (mem t p))] else [])\<rparr>\<rparr>) \<and>
     notify_idle l (p, F_read) revents s =
       Some (s\<lparr>reactor := (reactor s)\<lparr>trace := trace (reactor s) @
          [Hook_ProcessReadEvent (nc (mem s p))]\<rparr>\<rparr>) \<and>
     notify_idle l (p, F_write) revents s =
       Some (s\<lparr>reactor := (reactor s)\<lparr>trace := trace (reactor s) @
          [Hook_ProcessWriteEvent (nc (mem s p))]\<rparr>\<rparr>)"
  using notify_io_read [OF assms(1)] notify_io_write [OF assms(1)]
    notify_idle_read [OF assms(2)] notify_idle_write [OF assms(2)]
  by simp

text \<open>
  The theorem at the two example states: a read-ready and a write-ready notification.
\<close>

theorem C9_dispatch_witness:
  "attached_io example_io 0 \<and> attached_idle example_idle 0 \<and>
   map_option trace_of (notify_io 1 (0, F_read) EV_READ example_io)
     = Some (trace_of example_io @ [Hook_ProcessReadEvent 10]) \<and>
   map_option trace_of (notify_io 1 (0, F_write) EV_WRITE example_io)
     = Some (trace_of example_io @ [Hook_ProcessWriteEvent 10]) \<and>
   map_option trace_of (notify_idle 1 (0, F_read) EV_READ example_idle)
     = Some (trace_of example_idle @ [Hook_ProcessReadEvent 10])"
proof -
  have n: "nc (mem example_io 0) = 10" "nc (mem example_idle 0) = 10"
    by (simp_all add: example_io_def example_idle_def)
  have w: "EV_READ AND EV_READ \<noteq> 0" "EV_READ AND EV_WRITE = 0"
    "EV_WRITE AND EV_READ = 0" "EV_WRITE AND EV_WRITE \<noteq> 0"
    by (simp_all add: EV_READ_def EV_WRITE_def)
  from C9_dispatch [OF example_io_attached example_idle_attached, of 1 EV_READ]
    C9_dispatch [OF example_io_attached example_idle_attached, of 1 EV_WRITE]
    example_io_attached example_idle_attached n w
  show ?thesis by (simp add: trace_of_def)
qed

text \<open>
  The claim C9 as stated fails in the idle variant. After an attach and a Write with
  \<open>true\<close>, the loop calls the write watcher's callback with
  \<^verbatim>\<open>EV_IDLE\<close>, which does not report write readiness, and the write hook is
  called.
\<close>

theorem C9_counterexample:
  "EV_IDLE AND EV_WRITE = 0 \<and>
   map_option trace_of
     (Option.bind
        (final (run call_idle [Attach 0 1 10 5 (Some 0), Write 0 True]
                  (no_handles, start_world (junk junk_idle))))
        (notify_idle 1 (0, F_write) EV_IDLE))
     = Some [Ev_async_start 1 (0, F_keepActive), Ev_io_set (0, F_read) 5 EV_READ,
             Ev_io_start 1 (0, F_read), Ev_async_send 1 (0, F_keepActive),
             Ev_idle_start 1 (0, F_write), Ev_async_send 1 (0, F_keepActive),
             Hook_ProcessWriteEvent 10]"
  by (simp add: EV_IDLE_def EV_WRITE_def final_def trace_of_def no_handles_def start_world_def
        Attach_idle_first_eq Write_idle_eq notify_idle_def deref_def ev_invoke_idle_def
        natsLibev_ProcessWriteEvent_def natsConnection_ProcessWriteEvent_def emit_def)

text \<open>
  C10, as the code has it. For a connection whose handle is a valid state pointer
  \<open>p\<close>, \<^verbatim>\<open>natsLibev_Read\<close> returns \<^verbatim>\<open>NATS_OK\<close>, leaves
  the client's handles as they are, and changes the active flag of the read watcher of
  the struct at \<open>p\<close> and its registration on the struct's loop, and nothing else
  of the memory or the registrations: not the write watcher, not
  \<^verbatim>\<open>nc\<close>, not \<^verbatim>\<open>loop\<close>. \<^verbatim>\<open>natsLibev_Write\<close>
  does the same for the write watcher. In the io variant the wake primitive is
  unchanged; in the idle variant both functions signal it, which sets its
  \<^verbatim>\<open>sent\<close> mark and leaves the rest of it, and its registration, unchanged.
\<close>

theorem C10_toggle_frame:
  assumes "h i = Some p" and "p \<in> allocated s" and "p \<in> allocated t"
  shows
    "call_io (Read i b) (h, t) =
       Some (NATS_OK, h,
         t\<lparr>mem := (mem t)(p := (mem t p)\<lparr>read := (read (mem t p))\<lparr>io_active := b\<rparr>\<rparr>),
           reactor := (reactor t)\<lparr>watchers :=
               toggled (io_active (read (mem t p))) b (loop (mem t p), (p, F_read)) (watchers (reactor t)),
             trace := trace (reactor t) @
               [if b then Ev_io_start (loop (mem t p)) (p, F_read)
                else Ev_io_stop (loop (mem t p)) (p, F_read)]\<rparr>\<rparr>) \<and>
     call_io (Write i b) (h, t) =
       Some (NATS_OK, h,
         t\<lparr>mem := (mem t)(p := (mem t p)\<lparr>write_w := (write_w (mem t p))\<lparr>io_active := b\<rparr>\<rparr>),
           reactor := (reactor t)\<lparr>watchers :=
               toggled (io_active (write_w (mem t p))) b (loop (mem t p), (p, F_write)) (watchers (reactor t)),
             trace := trace (reactor t) @
               [if b then Ev_io_start (loop (mem t p)) (p, F_write)
                else Ev_io_stop (loop (mem t p)) (p, F_write)]\<rparr>\<rparr>) \<and>
     call_idle (Read i b) (h, s) =
       Some (NATS_OK, h,
         s\<lparr>mem := (mem s)(p := (mem s p)\<lparr>read := (read (mem s p))\<lparr>io_active := b\<rparr>,
                                         keepActive := (keepActive (mem s p))\<lparr>async_sent := True\<rparr>\<rparr>),
           reactor := (reactor s)\<lparr>watchers :=
               toggled (io_active (read (mem s p))) b (loop (mem s p), (p, F_read)) (watchers (reactor s)),
             trace := trace (reactor s) @
               [if b then Ev_io_start (loop (mem s p)) (p, F_read)
                else Ev_io_stop (loop (mem s p)) (p, F_read),
                Ev_async_send (loop (mem s p)) (p, F_keepActive)]\<rparr>\<rparr>) \<and>
     call_idle (Write i b) (h, s) =
       Some (NATS_OK, h,
         s\<lparr>mem := (mem s)(p := (mem s p)\<lparr>write_w := (write_w (mem s p))\<lparr>idle_active := b\<rparr>,
                                         keepActive := (keepActive (mem s p))\<lparr>async_sent := True\<rparr>\<rparr>),
           reactor := (reactor s)\<lparr>watchers :=
               toggled (idle_active (write_w (mem s p))) b (loop (mem s p), (p, F_write)) (watchers (reactor s)),
             trace := trace (reactor s) @
               [if b then Ev_idle_start (loop (mem s p)) (p, F_write)
                else Ev_idle_stop (loop (mem s p)) (p, F_write),
                Ev_async_send (loop (mem s p)) (p, F_keepActive)]\<rparr>\<rparr>)"
  using assms by (simp add: Read_idle_eq Write_idle_eq Read_io_eq Write_io_eq)

text \<open>The theorem at two example states: what a Read and a Write leave of the wake primitive.\<close>

theorem C10_toggle_frame_witness:
  "(no_handles(0 := Some 0)) 0 = Some 0 \<and> 0 \<in> allocated example_idle_woken \<and> 0 \<in> allocated example_io \<and>
   wake_after 0 (call_io (Read 0 False) (no_handles(0 := Some 0), example_io))
     = Some (keepActive (mem example_io 0)) \<and>
   wake_after 0 (call_idle (Write 0 True) (no_handles(0 := Some 0), example_idle_woken))
     = Some ((keepActive (mem example_idle_woken 0))\<lparr>async_sent := True\<rparr>)"
proof -
  have h0: "(no_handles(0 := Some 0)) 0 = Some 0" by simp
  have h1: "0 \<in> allocated example_idle_woken" by (simp add: example_idle_woken_def example_idle_def)
  have h2: "0 \<in> allocated example_io" by (simp add: example_io_def)
  from C10_toggle_frame [where h = "no_handles(0 := Some 0)" and i = 0 and p = 0
      and s = example_idle_woken and t = example_io, OF h0 h1 h2] h1 h2
  show ?thesis by (simp add: wake_after_def)
qed

text \<open>
  The claim C10 as stated fails in the idle variant: after the loop has taken the
  wake signal of the attach, a Read changes the wake primitive.
\<close>

theorem C10_counterexample:
  "keepActive (mem example_idle_woken 0)
     = \<lparr>async_active = True, async_cb = CB_keepAliveCb, async_sent = False\<rparr> \<and>
   wake_after 0 (call_idle (Read 0 True) (no_handles(0 := Some 0), example_idle_woken))
     = Some \<lparr>async_active = True, async_cb = CB_keepAliveCb, async_sent = True\<rparr>"
  by (simp add: wake_after_def Read_idle_eq example_idle_woken_def example_idle_def)

end
